theory Spec2Isabelle
  imports Complex_Main "HOL-Library.AList" "HOL-Library.Multiset"
begin

section \<open>Data model\<close>

text \<open>
  The engine is a NestJS service over a Prisma/PostgreSQL store.  A JavaScript
  \<open>number\<close> is idealised as a \<open>real\<close> (exact arithmetic; IEEE rounding is not
  modelled).  A \<open>Date\<close> is the instant it denotes, as the integer \<open>getTime()\<close> returns
  (milliseconds since the epoch): the ISO-8601 string of a DTO only ever reaches the
  services through \<open>new Date(dto.timestamp)\<close>, so a DTO carries that instant.
  Tables are lists of rows in insertion order.  The \<open>receivedAt\<close> column of the
  ledgers (database clock) is read by no function and is left out; the \<open>uuid()\<close> primary
  key of a ledger row is modelled by the row's position in the ledger.
\<close>

record meterTelemetryDto =
  mt_meterId :: string
  mt_kwhConsumedAc :: real
  mt_voltage :: real
  mt_timestamp :: int

record vehicleTelemetryDto =
  vt_vehicleId :: string
  vt_soc :: real
  vt_kwhDeliveredDc :: real
  vt_batteryTemp :: real
  vt_timestamp :: int

record meter =
  meter_meterId :: string
  meter_name :: string
  meter_location :: "string option"

record vehicle =
  vehicle_vehicleId :: string
  vehicle_name :: string
  vehicle_batteryCapacity :: "real option"
  vehicle_meterId :: "string option"

record meterReading =
  mr_id :: nat
  mr_meterId :: string
  mr_kwhConsumedAc :: real
  mr_voltage :: real
  mr_timestamp :: int

record vehicleReading =
  vr_id :: nat
  vr_vehicleId :: string
  vr_soc :: real
  vr_kwhDeliveredDc :: real
  vr_batteryTemp :: real
  vr_timestamp :: int

record meterCurrentState =
  mcs_meterId :: string
  mcs_kwhConsumedAc :: real
  mcs_voltage :: real
  mcs_lastTimestamp :: int

record vehicleCurrentState =
  vcs_vehicleId :: string
  vcs_soc :: real
  vcs_kwhDeliveredDc :: real
  vcs_batteryTemp :: real
  vcs_lastTimestamp :: int

record db =
  meter_tbl :: "meter list"
  vehicle_tbl :: "vehicle list"
  meterReading_tbl :: "meterReading list"
  vehicleReading_tbl :: "vehicleReading list"
  meterCurrentState_tbl :: "meterCurrentState list"
  vehicleCurrentState_tbl :: "vehicleCurrentState list"

definition emptyDb :: db where
  "emptyDb = \<lparr>meter_tbl = [], vehicle_tbl = [], meterReading_tbl = [],
     vehicleReading_tbl = [], meterCurrentState_tbl = [], vehicleCurrentState_tbl = []\<rparr>"

datatype error =
    NotFoundException string
  | RecordNotFound
  | ForeignKeyConstraintFailed

datatype efficiencyStatus = HEALTHY | WARNING | CRITICAL

subsection \<open>The store's operations used by the services\<close>

text \<open>\<open>findUnique({where})\<close>: the row selected by a unique key, if any.\<close>

definition findUnique :: "('r \<Rightarrow> bool) \<Rightarrow> 'r list \<Rightarrow> 'r option" where
  "findUnique wh rows = find wh rows"

text \<open>\<open>upsert({where, update, create})\<close>: the selected row is updated in place, or
  the \<open>create\<close> row is inserted when no row is selected.\<close>

fun upsert :: "('r \<Rightarrow> bool) \<Rightarrow> ('r \<Rightarrow> 'r) \<Rightarrow> 'r \<Rightarrow> 'r list \<Rightarrow> 'r list" where
  "upsert wh upd cre [] = [cre]"
| "upsert wh upd cre (r # rows) =
     (if wh r then upd r # rows else r # upsert wh upd cre rows)"

text \<open>\<open>update({where, data})\<close>: fails (Prisma's P2025, record to update not found)
  when no row is selected.\<close>

fun updateRow :: "('r \<Rightarrow> bool) \<Rightarrow> ('r \<Rightarrow> 'r) \<Rightarrow> 'r list \<Rightarrow> error + 'r list" where
  "updateRow wh upd [] = Inl RecordNotFound"
| "updateRow wh upd (r # rows) =
     (if wh r then Inr (upd r # rows)
      else (case updateRow wh upd rows of Inl e \<Rightarrow> Inl e | Inr rows' \<Rightarrow> Inr (r # rows')))"

section \<open>Analytics service\<close>

definition EFFICIENCY_THRESHOLD_WARNING :: real where
  "EFFICIENCY_THRESHOLD_WARNING = 85"

definition EFFICIENCY_THRESHOLD_CRITICAL :: real where
  "EFFICIENCY_THRESHOLD_CRITICAL = 75"

text \<open>\<open>Math.round(x * 100) / 100\<close>; \<open>Math.round\<close> rounds a half towards
  \<open>+\<infinity>\<close>.\<close>

definition mathRound :: "real \<Rightarrow> int" where
  "mathRound x = \<lfloor>x + 1 / 2\<rfloor>"

definition round2 :: "real \<Rightarrow> real" where
  "round2 x = of_int (mathRound (x * 100)) / 100"

text \<open>The reset loop of \<open>getPerformanceSummary\<close>:
  \<open>for (let i = 1; i < n; i++) { delta = r[i] - r[i - 1]; if (delta > 0) total += delta }\<close>,
  over the counter values of the reading series.\<close>

function sumPositiveDeltas :: "real list \<Rightarrow> nat \<Rightarrow> real \<Rightarrow> real" where
  "sumPositiveDeltas vs i tot =
     (if i < length vs
      then (let delta = vs ! i - vs ! (i - 1)
            in sumPositiveDeltas vs (i + 1) (if delta > 0 then tot + delta else tot))
      else tot)"
  by pat_completeness auto
termination
  by (relation "measure (\<lambda>(vs, i, tot). length vs - i)") auto

declare sumPositiveDeltas.simps [simp del]

text \<open>The total of one cumulative counter over a series ordered by time: last minus
  first, and the sum of the positive steps when that difference is negative.  The
  source has this block twice, for \<open>kwhDeliveredDc\<close> and for \<open>kwhConsumedAc\<close>.\<close>

definition counterTotal :: "real list \<Rightarrow> real" where
  "counterTotal vs =
     (if length vs > 0
      then (let tot = vs ! (length vs - 1) - vs ! 0
            in if tot < 0 then sumPositiveDeltas vs 1 0 else tot)
      else 0)"

text \<open>\<open>findMany({where: {id, timestamp: {gte, lte}}, orderBy: {timestamp: 'asc'}})\<close>.
  Rows with equal timestamps keep their ledger order.\<close>

definition findVehicleReadings :: "string \<Rightarrow> int \<Rightarrow> int \<Rightarrow> db \<Rightarrow> vehicleReading list" where
  "findVehicleReadings vehicleId periodStart periodEnd s =
     sort_key vr_timestamp
       (filter (\<lambda>r. vr_vehicleId r = vehicleId \<and> periodStart \<le> vr_timestamp r
                     \<and> vr_timestamp r \<le> periodEnd) (vehicleReading_tbl s))"

definition findMeterReadings :: "string \<Rightarrow> int \<Rightarrow> int \<Rightarrow> db \<Rightarrow> meterReading list" where
  "findMeterReadings meterId periodStart periodEnd s =
     sort_key mr_timestamp
       (filter (\<lambda>r. mr_meterId r = meterId \<and> periodStart \<le> mr_timestamp r
                     \<and> mr_timestamp r \<le> periodEnd) (meterReading_tbl s))"

definition totalDcDeliveredOf :: "vehicleReading list \<Rightarrow> real" where
  "totalDcDeliveredOf vehicleReadings = counterTotal (map vr_kwhDeliveredDc vehicleReadings)"

definition totalBatteryTempOf :: "vehicleReading list \<Rightarrow> real" where
  "totalBatteryTempOf vehicleReadings =
     (if length vehicleReadings > 0
      then fold (\<lambda>r acc. acc + vr_batteryTemp r) vehicleReadings 0
             / real (length vehicleReadings)
      else 0)"

text \<open>\<open>if (vehicle.meterId)\<close> is false for \<open>null\<close> and for the empty string.\<close>

definition associatedMeterReadings :: "vehicle \<Rightarrow> int \<Rightarrow> int \<Rightarrow> db \<Rightarrow> meterReading list" where
  "associatedMeterReadings v periodStart periodEnd s =
     (case vehicle_meterId v of
        None \<Rightarrow> []
      | Some m \<Rightarrow> if m = [] then [] else findMeterReadings m periodStart periodEnd s)"

definition totalAcConsumedOf :: "meterReading list \<Rightarrow> real" where
  "totalAcConsumedOf meterReadings = counterTotal (map mr_kwhConsumedAc meterReadings)"

definition efficiencyRatioOf :: "real \<Rightarrow> real \<Rightarrow> real" where
  "efficiencyRatioOf totalDcDelivered totalAcConsumed =
     (if totalAcConsumed > 0 then (totalDcDelivered / totalAcConsumed) * 100 else 0)"

definition efficiencyStatusOf :: "real \<Rightarrow> efficiencyStatus" where
  "efficiencyStatusOf efficiencyRatio =
     (if efficiencyRatio > 0
      then (if efficiencyRatio < EFFICIENCY_THRESHOLD_CRITICAL then CRITICAL
            else if efficiencyRatio < EFFICIENCY_THRESHOLD_WARNING then WARNING
            else HEALTHY)
      else HEALTHY)"

record performanceSummaryDto =
  ps_vehicleId :: string
  ps_meterId :: "string option"
  ps_periodStart :: int
  ps_periodEnd :: int
  ps_totalAcConsumed :: real
  ps_totalDcDelivered :: real
  ps_efficiencyRatio :: real
  ps_avgBatteryTemp :: real
  ps_vehicleReadingCount :: nat
  ps_meterReadingCount :: nat
  ps_efficiencyStatus :: efficiencyStatus

text \<open>\<open>getPerformanceSummary(vehicleId)\<close>; the clock \<open>new Date()\<close> is the
  parameter \<open>now\<close>.\<close>

definition getPerformanceSummary :: "int \<Rightarrow> string \<Rightarrow> db \<Rightarrow> error + performanceSummaryDto" where
  "getPerformanceSummary now vehicleId s =
     (let periodEnd = now;
          periodStart = periodEnd - 24 * 60 * 60 * 1000
      in case findUnique (\<lambda>v. vehicle_vehicleId v = vehicleId) (vehicle_tbl s) of
           None \<Rightarrow> Inl (NotFoundException (''Vehicle '' @ vehicleId @ '' not found''))
         | Some v \<Rightarrow>
             (let vehicleReadings = findVehicleReadings vehicleId periodStart periodEnd s;
                  totalDcDelivered = totalDcDeliveredOf vehicleReadings;
                  totalBatteryTemp = totalBatteryTempOf vehicleReadings;
                  meterReadings = associatedMeterReadings v periodStart periodEnd s;
                  totalAcConsumed = totalAcConsumedOf meterReadings;
                  efficiencyRatio = efficiencyRatioOf totalDcDelivered totalAcConsumed;
                  efficiencyStatus = efficiencyStatusOf efficiencyRatio
              in Inr \<lparr>ps_vehicleId = vehicleId,
                      ps_meterId = vehicle_meterId v,
                      ps_periodStart = periodStart,
                      ps_periodEnd = periodEnd,
                      ps_totalAcConsumed = round2 totalAcConsumed,
                      ps_totalDcDelivered = round2 totalDcDelivered,
                      ps_efficiencyRatio = round2 efficiencyRatio,
                      ps_avgBatteryTemp = round2 totalBatteryTemp,
                      ps_vehicleReadingCount = length vehicleReadings,
                      ps_meterReadingCount = length meterReadings,
                      ps_efficiencyStatus = efficiencyStatus\<rparr>))"

text \<open>The value of the local \<open>efficiencyRatio\<close> of \<open>getPerformanceSummary\<close> before
  it is rounded for the response, for the vehicle row \<open>v\<close> found.\<close>

definition unroundedRatio :: "int \<Rightarrow> vehicle \<Rightarrow> db \<Rightarrow> real" where
  "unroundedRatio now v s =
     efficiencyRatioOf
       (totalDcDeliveredOf
          (findVehicleReadings (vehicle_vehicleId v) (now - 24 * 60 * 60 * 1000) now s))
       (totalAcConsumedOf (associatedMeterReadings v (now - 24 * 60 * 60 * 1000) now s))"

record currentStateDto =
  cs_vehicleId :: string
  cs_currentSoc :: real
  cs_currentBatteryTemp :: real
  cs_lastKwhDeliveredDc :: real
  cs_lastUpdated :: int

definition getCurrentState :: "string \<Rightarrow> db \<Rightarrow> error + currentStateDto" where
  "getCurrentState vehicleId s =
     (case findUnique (\<lambda>c. vcs_vehicleId c = vehicleId) (vehicleCurrentState_tbl s) of
        None \<Rightarrow> Inl (NotFoundException (''No current state found for vehicle '' @ vehicleId))
      | Some currentState \<Rightarrow>
          Inr \<lparr>cs_vehicleId = vcs_vehicleId currentState,
               cs_currentSoc = vcs_soc currentState,
               cs_currentBatteryTemp = vcs_batteryTemp currentState,
               cs_lastKwhDeliveredDc = vcs_kwhDeliveredDc currentState,
               cs_lastUpdated = vcs_lastTimestamp currentState\<rparr>)"

record fleetStats =
  fs_totalVehicles :: nat
  fs_totalMeters :: nat
  fs_activeVehicles :: nat
  fs_activeMeters :: nat
  fs_avgFleetSoc :: real
  fs_avgFleetBatteryTemp :: real

definition activeVehicleStates :: "int \<Rightarrow> db \<Rightarrow> vehicleCurrentState list" where
  "activeVehicleStates now s =
     (let fiveMinutesAgo = now - 5 * 60 * 1000
      in filter (\<lambda>v. vcs_lastTimestamp v \<ge> fiveMinutesAgo) (vehicleCurrentState_tbl s))"

definition activeMeterStates :: "int \<Rightarrow> db \<Rightarrow> meterCurrentState list" where
  "activeMeterStates now s =
     (let fiveMinutesAgo = now - 5 * 60 * 1000
      in filter (\<lambda>m. mcs_lastTimestamp m \<ge> fiveMinutesAgo) (meterCurrentState_tbl s))"

definition avgFleetSoc :: "int \<Rightarrow> db \<Rightarrow> real" where
  "avgFleetSoc now s =
     (if length (activeVehicleStates now s) > 0
      then fold (\<lambda>v acc. acc + vcs_soc v) (activeVehicleStates now s) 0
             / real (length (activeVehicleStates now s))
      else 0)"

definition avgFleetBatteryTemp :: "int \<Rightarrow> db \<Rightarrow> real" where
  "avgFleetBatteryTemp now s =
     (if length (activeVehicleStates now s) > 0
      then fold (\<lambda>v acc. acc + vcs_batteryTemp v) (activeVehicleStates now s) 0
             / real (length (activeVehicleStates now s))
      else 0)"

text \<open>\<open>getFleetStats()\<close>; the clock \<open>Date.now()\<close> is the parameter \<open>now\<close>.\<close>

definition getFleetStats :: "int \<Rightarrow> db \<Rightarrow> fleetStats" where
  "getFleetStats now s =
     \<lparr>fs_totalVehicles = length (vehicle_tbl s),
      fs_totalMeters = length (meter_tbl s),
      fs_activeVehicles = length (activeVehicleStates now s),
      fs_activeMeters = length (activeMeterStates now s),
      fs_avgFleetSoc = round2 (avgFleetSoc now s),
      fs_avgFleetBatteryTemp = round2 (avgFleetBatteryTemp now s)\<rparr>"

section \<open>Ingestion service\<close>

text \<open>Each service call runs in one transaction; a storage fault aborts the call and
  is outside this model, so the calls below are total.\<close>

record meterAck =
  ma_success :: bool
  ma_meterId :: string
  ma_readingId :: nat

record vehicleAck =
  va_success :: bool
  va_vehicleId :: string
  va_readingId :: nat

record batchAck =
  ba_success :: bool
  ba_count :: nat
  ba_ids :: "string list"

definition registerMeter :: "string \<Rightarrow> meter list \<Rightarrow> meter list" where
  "registerMeter meterId tbl =
     upsert (\<lambda>m. meter_meterId m = meterId) (\<lambda>m. m)
       \<lparr>meter_meterId = meterId, meter_name = ''Meter '' @ meterId, meter_location = None\<rparr> tbl"

definition registerVehicle :: "string \<Rightarrow> vehicle list \<Rightarrow> vehicle list" where
  "registerVehicle vehicleId tbl =
     upsert (\<lambda>v. vehicle_vehicleId v = vehicleId) (\<lambda>v. v)
       \<lparr>vehicle_vehicleId = vehicleId, vehicle_name = ''Vehicle '' @ vehicleId,
        vehicle_batteryCapacity = None, vehicle_meterId = None\<rparr> tbl"

text \<open>The hot-path upsert of the current state from one reading; both the \<open>update\<close>
  and the \<open>create\<close> branch write every measurement and the timestamp.\<close>

definition upsertMeterCurrentState ::
  "string \<Rightarrow> meterTelemetryDto \<Rightarrow> meterCurrentState list \<Rightarrow> meterCurrentState list" where
  "upsertMeterCurrentState meterId dto tbl =
     upsert (\<lambda>c. mcs_meterId c = meterId)
       (\<lambda>c. c\<lparr>mcs_kwhConsumedAc := mt_kwhConsumedAc dto, mcs_voltage := mt_voltage dto,
              mcs_lastTimestamp := mt_timestamp dto\<rparr>)
       \<lparr>mcs_meterId = meterId, mcs_kwhConsumedAc = mt_kwhConsumedAc dto,
        mcs_voltage = mt_voltage dto, mcs_lastTimestamp = mt_timestamp dto\<rparr> tbl"

definition upsertVehicleCurrentState ::
  "string \<Rightarrow> vehicleTelemetryDto \<Rightarrow> vehicleCurrentState list \<Rightarrow> vehicleCurrentState list" where
  "upsertVehicleCurrentState vehicleId dto tbl =
     upsert (\<lambda>c. vcs_vehicleId c = vehicleId)
       (\<lambda>c. c\<lparr>vcs_soc := vt_soc dto, vcs_kwhDeliveredDc := vt_kwhDeliveredDc dto,
              vcs_batteryTemp := vt_batteryTemp dto, vcs_lastTimestamp := vt_timestamp dto\<rparr>)
       \<lparr>vcs_vehicleId = vehicleId, vcs_soc = vt_soc dto,
        vcs_kwhDeliveredDc = vt_kwhDeliveredDc dto, vcs_batteryTemp = vt_batteryTemp dto,
        vcs_lastTimestamp = vt_timestamp dto\<rparr> tbl"

definition meterReadingRow :: "nat \<Rightarrow> meterTelemetryDto \<Rightarrow> meterReading" where
  "meterReadingRow i dto =
     \<lparr>mr_id = i, mr_meterId = mt_meterId dto, mr_kwhConsumedAc = mt_kwhConsumedAc dto,
      mr_voltage = mt_voltage dto, mr_timestamp = mt_timestamp dto\<rparr>"

definition vehicleReadingRow :: "nat \<Rightarrow> vehicleTelemetryDto \<Rightarrow> vehicleReading" where
  "vehicleReadingRow i dto =
     \<lparr>vr_id = i, vr_vehicleId = vt_vehicleId dto, vr_soc = vt_soc dto,
      vr_kwhDeliveredDc = vt_kwhDeliveredDc dto, vr_batteryTemp = vt_batteryTemp dto,
      vr_timestamp = vt_timestamp dto\<rparr>"

definition ingestMeterTelemetry :: "meterTelemetryDto \<Rightarrow> db \<Rightarrow> db \<times> meterAck" where
  "ingestMeterTelemetry dto s =
     (let reading = meterReadingRow (length (meterReading_tbl s)) dto;
          s' = s\<lparr>meter_tbl := registerMeter (mt_meterId dto) (meter_tbl s),
                 meterReading_tbl := meterReading_tbl s @ [reading],
                 meterCurrentState_tbl :=
                   upsertMeterCurrentState (mt_meterId dto) dto (meterCurrentState_tbl s)\<rparr>
      in (s', \<lparr>ma_success = True, ma_meterId = mt_meterId dto, ma_readingId = mr_id reading\<rparr>))"

definition ingestVehicleTelemetry :: "vehicleTelemetryDto \<Rightarrow> db \<Rightarrow> db \<times> vehicleAck" where
  "ingestVehicleTelemetry dto s =
     (let reading = vehicleReadingRow (length (vehicleReading_tbl s)) dto;
          s' = s\<lparr>vehicle_tbl := registerVehicle (vt_vehicleId dto) (vehicle_tbl s),
                 vehicleReading_tbl := vehicleReading_tbl s @ [reading],
                 vehicleCurrentState_tbl :=
                   upsertVehicleCurrentState (vt_vehicleId dto) dto (vehicleCurrentState_tbl s)\<rparr>
      in (s', \<lparr>va_success = True, va_vehicleId = vt_vehicleId dto, va_readingId = vr_id reading\<rparr>))"

text \<open>\<open>[...new Set(ids)]\<close>: the distinct ids in order of first occurrence.\<close>

definition distinctIds :: "string list \<Rightarrow> string list" where
  "distinctIds ids = fold (\<lambda>x acc. if x \<in> set acc then acc else acc @ [x]) ids []"

text \<open>A JavaScript \<open>Map\<close> is an association list in insertion order: \<open>get\<close> is
  \<open>map_of\<close>, and \<open>set\<close> replaces the value of a present key in place or appends a
  new entry (\<open>AList.update\<close>).  The reduction loop of the batch calls keeps, per
  device, the reading held so far unless the incoming one has a strictly greater
  timestamp.\<close>

definition latestByMeter :: "meterTelemetryDto list \<Rightarrow> (string \<times> meterTelemetryDto) list" where
  "latestByMeter readings =
     fold (\<lambda>reading m.
             case map_of m (mt_meterId reading) of
               None \<Rightarrow> AList.update (mt_meterId reading) reading m
             | Some existing \<Rightarrow>
                 if mt_timestamp reading > mt_timestamp existing
                 then AList.update (mt_meterId reading) reading m else m)
          readings []"

definition latestByVehicle :: "vehicleTelemetryDto list \<Rightarrow> (string \<times> vehicleTelemetryDto) list" where
  "latestByVehicle readings =
     fold (\<lambda>reading m.
             case map_of m (vt_vehicleId reading) of
               None \<Rightarrow> AList.update (vt_vehicleId reading) reading m
             | Some existing \<Rightarrow>
                 if vt_timestamp reading > vt_timestamp existing
                 then AList.update (vt_vehicleId reading) reading m else m)
          readings []"

definition batchIngestMeterTelemetry :: "meterTelemetryDto list \<Rightarrow> db \<Rightarrow> db \<times> batchAck" where
  "batchIngestMeterTelemetry readings s =
     (let meterIds = distinctIds (map mt_meterId readings);
          s' = s\<lparr>meter_tbl := fold registerMeter meterIds (meter_tbl s),
                 meterReading_tbl :=
                   meterReading_tbl s
                     @ map (\<lambda>(i, dto). meterReadingRow i dto)
                         (enumerate (length (meterReading_tbl s)) readings),
                 meterCurrentState_tbl :=
                   fold (\<lambda>(meterId, latest). upsertMeterCurrentState meterId latest)
                     (latestByMeter readings) (meterCurrentState_tbl s)\<rparr>
      in (s', \<lparr>ba_success = True, ba_count = length readings, ba_ids = meterIds\<rparr>))"

definition batchIngestVehicleTelemetry :: "vehicleTelemetryDto list \<Rightarrow> db \<Rightarrow> db \<times> batchAck" where
  "batchIngestVehicleTelemetry readings s =
     (let vehicleIds = distinctIds (map vt_vehicleId readings);
          s' = s\<lparr>vehicle_tbl := fold registerVehicle vehicleIds (vehicle_tbl s),
                 vehicleReading_tbl :=
                   vehicleReading_tbl s
                     @ map (\<lambda>(i, dto). vehicleReadingRow i dto)
                         (enumerate (length (vehicleReading_tbl s)) readings),
                 vehicleCurrentState_tbl :=
                   fold (\<lambda>(vehicleId, latest). upsertVehicleCurrentState vehicleId latest)
                     (latestByVehicle readings) (vehicleCurrentState_tbl s)\<rparr>
      in (s', \<lparr>ba_success = True, ba_count = length readings, ba_ids = vehicleIds\<rparr>))"

text \<open>\<open>vehicle.update({where: {vehicleId}, data: {meterId}})\<close> on the store.  The
  \<open>meterId\<close> of a vehicle references a meter row: the schema file is not among the
  sources, but the relation shows in \<open>include: { meter: true }\<close> of the analytics
  service, in \<open>cleanDatabase\<close> (deletion "in order respecting foreign key constraints",
  vehicles before meters) and in the controller's documented response 404 "Vehicle or
  meter not found".  The update fails when no vehicle row is selected (Prisma's P2025),
  and the store rejects a meter id that no meter row carries (Prisma's P2003, foreign
  key constraint failed).\<close>

definition updateVehicleMeterId :: "string \<Rightarrow> string \<Rightarrow> db \<Rightarrow> error + db" where
  "updateVehicleMeterId vehicleId meterId s =
     (case updateRow (\<lambda>v. vehicle_vehicleId v = vehicleId)
             (\<lambda>v. v\<lparr>vehicle_meterId := Some meterId\<rparr>) (vehicle_tbl s) of
        Inl e \<Rightarrow> Inl e
      | Inr tbl \<Rightarrow>
          (case findUnique (\<lambda>m. meter_meterId m = meterId) (meter_tbl s) of
             None \<Rightarrow> Inl ForeignKeyConstraintFailed
           | Some m \<Rightarrow> Inr (s\<lparr>vehicle_tbl := tbl\<rparr>)))"

text \<open>\<open>associateVehicleWithMeter\<close>: that one update, with no lookup of its own and no
  handling of the store's errors.\<close>

definition associateVehicleWithMeter :: "string \<Rightarrow> string \<Rightarrow> db \<Rightarrow> error + db \<times> bool" where
  "associateVehicleWithMeter vehicleId meterId s =
     (case updateVehicleMeterId vehicleId meterId s of
        Inl e \<Rightarrow> Inl e
      | Inr s' \<Rightarrow> Inr (s', True))"

section \<open>Specification-side notions and example states\<close>

text \<open>The cumulative-delta rule in the specification's words: last minus first; the
  sum of \<open>max(0, r[i] - r[i-1])\<close> over consecutive pairs when that is negative; \<open>0\<close>
  for a series with fewer than one element.\<close>

definition specCumulativeDelta :: "real list \<Rightarrow> real" where
  "specCumulativeDelta r =
     (if length r < 1 then 0
      else (let n = length r; tot = r ! (n - 1) - r ! 0
            in if tot < 0 then (\<Sum>i = 1..<n. max 0 (r ! i - r ! (i - 1))) else tot))"

text \<open>\<open>y\<close> is \<open>x\<close> rounded to two decimal places: a multiple of \<open>1/100\<close> at distance
  at most \<open>1/200\<close> from \<open>x\<close>.\<close>

definition roundedTo2 :: "real \<Rightarrow> real \<Rightarrow> bool" where
  "roundedTo2 x y = (of_int \<lfloor>y * 100\<rfloor> = y * 100 \<and> \<bar>y - x\<bar> \<le> 1 / 200)"

text \<open>A device is active when its last timestamp is at least \<open>now - 5 min\<close>.\<close>

definition isActive :: "int \<Rightarrow> int \<Rightarrow> bool" where
  "isActive now lastTimestamp = (lastTimestamp \<ge> now - 5 * 60 * 1000)"

definition meanOf :: "real list \<Rightarrow> real" where
  "meanOf xs = (if xs = [] then 0 else sum_list xs / real (length xs))"

text \<open>The end-to-end scenario of the specification, with the four counter values as
  parameters: two meter readings and two vehicle readings one hour apart, then the
  association of the vehicle with the meter.\<close>

definition endToEnd :: "real \<Rightarrow> real \<Rightarrow> real \<Rightarrow> real \<Rightarrow> db" where
  "endToEnd ac0 ac1 dc0 dc1 =
     (let s1 = fst (ingestMeterTelemetry
                 \<lparr>mt_meterId = ''METER-001'', mt_kwhConsumedAc = ac0, mt_voltage = 230,
                  mt_timestamp = 0\<rparr> emptyDb);
          s2 = fst (ingestMeterTelemetry
                 \<lparr>mt_meterId = ''METER-001'', mt_kwhConsumedAc = ac1, mt_voltage = 231,
                  mt_timestamp = 3600000\<rparr> s1);
          s3 = fst (ingestVehicleTelemetry
                 \<lparr>vt_vehicleId = ''VEH-001'', vt_soc = 50, vt_kwhDeliveredDc = dc0,
                  vt_batteryTemp = 30, vt_timestamp = 0\<rparr> s2);
          s4 = fst (ingestVehicleTelemetry
                 \<lparr>vt_vehicleId = ''VEH-001'', vt_soc = 50, vt_kwhDeliveredDc = dc1,
                  vt_batteryTemp = 30, vt_timestamp = 3600000\<rparr> s3)
      in case associateVehicleWithMeter ''VEH-001'' ''METER-001'' s4 of
           Inl e \<Rightarrow> s4
         | Inr (s5, ok) \<Rightarrow> s5)"

definition endToEndVehicle :: vehicle where
  "endToEndVehicle =
     \<lparr>vehicle_vehicleId = ''VEH-001'', vehicle_name = ''Vehicle VEH-001'',
      vehicle_batteryCapacity = None, vehicle_meterId = Some ''METER-001''\<rparr>"

text \<open>A fleet at time \<open>600000\<close>: one vehicle last seen ten minutes ago, one exactly
  five minutes ago, one just now; one stale and one fresh meter.\<close>

definition fleetDb :: db where
  "fleetDb =
     emptyDb\<lparr>vehicleCurrentState_tbl :=
       [\<lparr>vcs_vehicleId = ''VEH-A'', vcs_soc = 10, vcs_kwhDeliveredDc = 1, vcs_batteryTemp = 20,
         vcs_lastTimestamp = 0\<rparr>,
        \<lparr>vcs_vehicleId = ''VEH-B'', vcs_soc = 80, vcs_kwhDeliveredDc = 2, vcs_batteryTemp = 30,
         vcs_lastTimestamp = 300000\<rparr>,
        \<lparr>vcs_vehicleId = ''VEH-C'', vcs_soc = 60, vcs_kwhDeliveredDc = 3, vcs_batteryTemp = 40,
         vcs_lastTimestamp = 600000\<rparr>],
      meterCurrentState_tbl :=
       [\<lparr>mcs_meterId = ''METER-A'', mcs_kwhConsumedAc = 5, mcs_voltage = 230,
         mcs_lastTimestamp = 0\<rparr>,
        \<lparr>mcs_meterId = ''METER-B'', mcs_kwhConsumedAc = 6, mcs_voltage = 231,
         mcs_lastTimestamp = 599999\<rparr>]\<rparr>"

text \<open>The same fleet with only the vehicle last seen ten minutes ago.\<close>

definition staleFleetDb :: db where
  "staleFleetDb =
     emptyDb\<lparr>vehicleCurrentState_tbl :=
       [\<lparr>vcs_vehicleId = ''VEH-A'', vcs_soc = 10, vcs_kwhDeliveredDc = 1, vcs_batteryTemp = 20,
         vcs_lastTimestamp = 0\<rparr>]\<rparr>"

text \<open>The current-state row of a device: the unique-key lookup on the hot table.\<close>

definition meterStateOf :: "string \<Rightarrow> db \<Rightarrow> meterCurrentState option" where
  "meterStateOf meterId s = findUnique (\<lambda>c. mcs_meterId c = meterId) (meterCurrentState_tbl s)"

definition vehicleStateOf :: "string \<Rightarrow> db \<Rightarrow> vehicleCurrentState option" where
  "vehicleStateOf vehicleId s =
     findUnique (\<lambda>c. vcs_vehicleId c = vehicleId) (vehicleCurrentState_tbl s)"

text \<open>The device rows of a vehicle id and of a meter id, if the store has them.\<close>

definition vehicleOf :: "string \<Rightarrow> db \<Rightarrow> vehicle option" where
  "vehicleOf vehicleId s = findUnique (\<lambda>v. vehicle_vehicleId v = vehicleId) (vehicle_tbl s)"

definition meterOf :: "string \<Rightarrow> db \<Rightarrow> meter option" where
  "meterOf meterId s = findUnique (\<lambda>m. meter_meterId m = meterId) (meter_tbl s)"

text \<open>A store that knows one vehicle and no meter at all.\<close>

definition vehicleOnlyDb :: db where
  "vehicleOnlyDb =
     fst (ingestVehicleTelemetry
            \<lparr>vt_vehicleId = ''VEH-001'', vt_soc = 50, vt_kwhDeliveredDc = 800,
             vt_batteryTemp = 30, vt_timestamp = 0\<rparr> emptyDb)"

text \<open>The same store after a first reading of meter \<open>METER-001\<close>: one vehicle, not yet
  linked, and one meter.\<close>

definition vehicleAndMeterDb :: db where
  "vehicleAndMeterDb =
     fst (ingestMeterTelemetry
            \<lparr>mt_meterId = ''METER-001'', mt_kwhConsumedAc = 1000, mt_voltage = 230,
             mt_timestamp = 0\<rparr> vehicleOnlyDb)"

definition unlinkedVehicle :: vehicle where
  "unlinkedVehicle =
     \<lparr>vehicle_vehicleId = ''VEH-001'', vehicle_name = ''Vehicle VEH-001'',
      vehicle_batteryCapacity = None, vehicle_meterId = None\<rparr>"

text \<open>The winner among the readings \<open>ds\<close> of one device, in the words of the
  claim about batches: the reading with the maximum observation timestamp, ties broken
  by the last-occurring position in the input sequence.\<close>

definition winnerLastTie :: "('r \<Rightarrow> int) \<Rightarrow> 'r list \<Rightarrow> 'r option" where
  "winnerLastTie ts ds =
     (if ds = [] then None
      else Some (last (filter (\<lambda>r. ts r = Max (set (map ts ds))) ds)))"

text \<open>The same with ties broken by the first-occurring position.\<close>

definition winnerFirstTie :: "('r \<Rightarrow> int) \<Rightarrow> 'r list \<Rightarrow> 'r option" where
  "winnerFirstTie ts ds =
     (if ds = [] then None
      else Some (hd (filter (\<lambda>r. ts r = Max (set (map ts ds))) ds)))"

text \<open>At most one of the readings \<open>ds\<close> carries their maximum timestamp.\<close>

definition singleMax :: "('r \<Rightarrow> int) \<Rightarrow> 'r list \<Rightarrow> bool" where
  "singleMax ts ds = (length (filter (\<lambda>r. ts r = Max (set (map ts ds))) ds) \<le> 1)"

text \<open>The readings of one device within a batch, in input order.\<close>

definition meterReadingsOf :: "string \<Rightarrow> meterTelemetryDto list \<Rightarrow> meterTelemetryDto list" where
  "meterReadingsOf d readings = filter (\<lambda>r. mt_meterId r = d) readings"

definition vehicleReadingsOf :: "string \<Rightarrow> vehicleTelemetryDto list \<Rightarrow> vehicleTelemetryDto list" where
  "vehicleReadingsOf d readings = filter (\<lambda>r. vt_vehicleId r = d) readings"

text \<open>The body of the reduction loop of the two batch calls, for any key and timestamp
  projection (a proof device: \<open>latestByMeter\<close> and \<open>latestByVehicle\<close> are folds of it).\<close>

definition keepLatest :: "('r \<Rightarrow> string) \<Rightarrow> ('r \<Rightarrow> int) \<Rightarrow> 'r \<Rightarrow> (string \<times> 'r) list \<Rightarrow> (string \<times> 'r) list" where
  "keepLatest key ts reading m =
     (case map_of m (key reading) of
        None \<Rightarrow> AList.update (key reading) reading m
      | Some existing \<Rightarrow>
          if ts reading > ts existing then AList.update (key reading) reading m else m)"

text \<open>Readings for the examples: two readings of one device with the same timestamp and
  different measurements, and a later one.\<close>

definition meterTieA :: meterTelemetryDto where
  "meterTieA = \<lparr>mt_meterId = ''METER-001'', mt_kwhConsumedAc = 10, mt_voltage = 230,
     mt_timestamp = 1000\<rparr>"

definition meterTieB :: meterTelemetryDto where
  "meterTieB = \<lparr>mt_meterId = ''METER-001'', mt_kwhConsumedAc = 20, mt_voltage = 231,
     mt_timestamp = 1000\<rparr>"

definition meterLate :: meterTelemetryDto where
  "meterLate = \<lparr>mt_meterId = ''METER-001'', mt_kwhConsumedAc = 30, mt_voltage = 232,
     mt_timestamp = 2000\<rparr>"

definition vehicleTieA :: vehicleTelemetryDto where
  "vehicleTieA = \<lparr>vt_vehicleId = ''VEH-001'', vt_soc = 40, vt_kwhDeliveredDc = 10,
     vt_batteryTemp = 30, vt_timestamp = 1000\<rparr>"

definition vehicleTieB :: vehicleTelemetryDto where
  "vehicleTieB = \<lparr>vt_vehicleId = ''VEH-001'', vt_soc = 41, vt_kwhDeliveredDc = 20,
     vt_batteryTemp = 31, vt_timestamp = 1000\<rparr>"

definition vehicleLate :: vehicleTelemetryDto where
  "vehicleLate = \<lparr>vt_vehicleId = ''VEH-001'', vt_soc = 42, vt_kwhDeliveredDc = 30,
     vt_batteryTemp = 32, vt_timestamp = 2000\<rparr>"

text \<open>Sequences of ingestion calls, run from the empty store.\<close>

datatype operation =
    IngestMeter meterTelemetryDto
  | IngestVehicle vehicleTelemetryDto
  | BatchMeter "meterTelemetryDto list"
  | BatchVehicle "vehicleTelemetryDto list"

fun applyOp :: "operation \<Rightarrow> db \<Rightarrow> db" where
  "applyOp (IngestMeter dto) s = fst (ingestMeterTelemetry dto s)"
| "applyOp (IngestVehicle dto) s = fst (ingestVehicleTelemetry dto s)"
| "applyOp (BatchMeter readings) s = fst (batchIngestMeterTelemetry readings s)"
| "applyOp (BatchVehicle readings) s = fst (batchIngestVehicleTelemetry readings s)"

definition runOps :: "operation list \<Rightarrow> db" where
  "runOps ops = fold applyOp ops emptyDb"

text \<open>The readings an operation carries, per kind, and the observation timestamps it
  carries for one device, in input order.\<close>

fun meterReadingsIn :: "operation \<Rightarrow> meterTelemetryDto list" where
  "meterReadingsIn (IngestMeter dto) = [dto]"
| "meterReadingsIn (BatchMeter readings) = readings"
| "meterReadingsIn _ = []"

fun vehicleReadingsIn :: "operation \<Rightarrow> vehicleTelemetryDto list" where
  "vehicleReadingsIn (IngestVehicle dto) = [dto]"
| "vehicleReadingsIn (BatchVehicle readings) = readings"
| "vehicleReadingsIn _ = []"

definition meterTimestampsIn :: "string \<Rightarrow> operation \<Rightarrow> int list" where
  "meterTimestampsIn d op = map mt_timestamp (meterReadingsOf d (meterReadingsIn op))"

definition vehicleTimestampsIn :: "string \<Rightarrow> operation \<Rightarrow> int list" where
  "vehicleTimestampsIn d op = map vt_timestamp (vehicleReadingsOf d (vehicleReadingsIn op))"

text \<open>The observation timestamps of all readings accepted for a device so far: those of
  its rows in the ledger.\<close>

definition acceptedMeterTimestamps :: "string \<Rightarrow> db \<Rightarrow> int list" where
  "acceptedMeterTimestamps d s =
     map mr_timestamp (filter (\<lambda>r. mr_meterId r = d) (meterReading_tbl s))"

definition acceptedVehicleTimestamps :: "string \<Rightarrow> db \<Rightarrow> int list" where
  "acceptedVehicleTimestamps d s =
     map vr_timestamp (filter (\<lambda>r. vr_vehicleId r = d) (vehicleReading_tbl s))"

text \<open>The maximum of a list of timestamps, if there is one.\<close>

definition maxTimestamp :: "int list \<Rightarrow> int option" where
  "maxTimestamp ts = (if ts = [] then None else Some (Max (set ts)))"

text \<open>The \<open>lastTimestamp\<close> of the current-state row of a device, if it has one.\<close>

definition meterLastTimestamp :: "string \<Rightarrow> db \<Rightarrow> int option" where
  "meterLastTimestamp d s = map_option mcs_lastTimestamp (meterStateOf d s)"

definition vehicleLastTimestamp :: "string \<Rightarrow> db \<Rightarrow> int option" where
  "vehicleLastTimestamp d s = map_option vcs_lastTimestamp (vehicleStateOf d s)"

text \<open>A correctly ordered write stream for one device: the timestamps each operation
  carries for the device are given in turn, and no operation's maximum lies below a
  timestamp accepted before it (an operation without a reading for the device is
  always in order).\<close>

fun inTimestampOrder :: "int list \<Rightarrow> int list list \<Rightarrow> bool" where
  "inTimestampOrder prev [] = True"
| "inTimestampOrder prev (ts # rest) =
     ((ts = [] \<or> list_all (\<lambda>t. t \<le> Max (set ts)) prev) \<and> inTimestampOrder (prev @ ts) rest)"

text \<open>Two example streams: a later reading followed by an earlier one, and a stream in
  timestamp order that mixes single readings and batches of both kinds.\<close>

definition outOfOrderOps :: "operation list" where
  "outOfOrderOps = [IngestMeter meterLate, IngestMeter meterTieA]"

definition inOrderOps :: "operation list" where
  "inOrderOps = [IngestMeter meterTieA, BatchMeter [meterLate, meterTieB],
     IngestVehicle vehicleTieA, BatchVehicle [vehicleTieB, vehicleLate]]"

section \<open>Analytics: the cumulative-delta algorithm\<close>

lemma sumPositiveDeltas_sum:
  "sumPositiveDeltas vs i tot = tot + (\<Sum>k = i..<length vs. max 0 (vs ! k - vs ! (k - 1)))"
proof (induction vs i tot rule: sumPositiveDeltas.induct)
  case (1 vs i tot)
  show ?case
  proof (cases "i < length vs")
    case True
    define delta where "delta = vs ! i - vs ! (i - 1)"
    have step: "sumPositiveDeltas vs i tot =
        sumPositiveDeltas vs (i + 1) (if delta > 0 then tot + delta else tot)"
      using True by (subst sumPositiveDeltas.simps) (simp add: delta_def Let_def)
    have ih: "sumPositiveDeltas vs (i + 1) (if delta > 0 then tot + delta else tot) =
        (if delta > 0 then tot + delta else tot)
          + (\<Sum>k = i + 1..<length vs. max 0 (vs ! k - vs ! (k - 1)))"
      using "1.IH"[OF True delta_def] .
    have split: "(\<Sum>k = i..<length vs. max 0 (vs ! k - vs ! (k - 1))) =
        max 0 delta + (\<Sum>k = i + 1..<length vs. max 0 (vs ! k - vs ! (k - 1)))"
      using True by (simp add: sum.atLeast_Suc_lessThan delta_def)
    show ?thesis
      unfolding step ih split by (simp add: max_def)
  next
    case False
    then show ?thesis by (subst sumPositiveDeltas.simps) simp
  qed
qed

lemma counterTotal_spec: "counterTotal vs = specCumulativeDelta vs"
  by (simp add: counterTotal_def specCumulativeDelta_def sumPositiveDeltas_sum Let_def)

lemma counterTotal_nonneg: "0 \<le> counterTotal vs"
  by (simp add: counterTotal_def sumPositiveDeltas_sum Let_def sum_nonneg)

text \<open>
  \<^bold>\<open>Claim C3.\<close>  For every reading series of a cumulative counter (vehicle DC delivered
  or meter AC consumed) handed to the summary in time order, the computed total is the
  last value minus the first when that difference is not negative, the sum over all
  consecutive pairs of \<open>max(0, r[i] - r[i-1])\<close> when it is negative, and \<open>0\<close> for an
  empty series; the series \<open>[100, 101, 102]\<close> and \<open>[100, 101, 5, 6]\<close> both give \<open>2\<close>.
\<close>

theorem cumulative_delta_total:
  "totalDcDeliveredOf vehicleReadings
     = specCumulativeDelta (map vr_kwhDeliveredDc vehicleReadings)
   \<and> totalAcConsumedOf meterReadings
     = specCumulativeDelta (map mr_kwhConsumedAc meterReadings)
   \<and> counterTotal [] = 0
   \<and> counterTotal [100, 101, 102] = 2
   \<and> counterTotal [100, 101, 5, 6] = 2"
proof -
  have "counterTotal [100, 101, 5, 6] = 2"
    by (simp add: counterTotal_def sumPositiveDeltas.simps)
  moreover have "counterTotal [100, 101, 102] = 2"
    by (simp add: counterTotal_def)
  moreover have "counterTotal [] = 0"
    by (simp add: counterTotal_def)
  ultimately show ?thesis
    by (simp add: totalDcDeliveredOf_def totalAcConsumedOf_def counterTotal_spec)
qed

section \<open>Analytics: the performance summary\<close>

lemma getPerformanceSummary_found:
  assumes "findUnique (\<lambda>v. vehicle_vehicleId v = vehicleId) (vehicle_tbl s) = Some v"
  shows "getPerformanceSummary now vehicleId s =
     Inr \<lparr>ps_vehicleId = vehicleId,
          ps_meterId = vehicle_meterId v,
          ps_periodStart = now - 86400000,
          ps_periodEnd = now,
          ps_totalAcConsumed =
            round2 (totalAcConsumedOf (associatedMeterReadings v (now - 86400000) now s)),
          ps_totalDcDelivered =
            round2 (totalDcDeliveredOf (findVehicleReadings vehicleId (now - 86400000) now s)),
          ps_efficiencyRatio = round2 (unroundedRatio now v s),
          ps_avgBatteryTemp =
            round2 (totalBatteryTempOf (findVehicleReadings vehicleId (now - 86400000) now s)),
          ps_vehicleReadingCount =
            length (findVehicleReadings vehicleId (now - 86400000) now s),
          ps_meterReadingCount = length (associatedMeterReadings v (now - 86400000) now s),
          ps_efficiencyStatus = efficiencyStatusOf (unroundedRatio now v s)\<rparr>"
proof -
  have "vehicle_vehicleId v = vehicleId"
    using assms by (auto simp: findUnique_def find_Some_iff)
  then show ?thesis
    using assms by (simp add: getPerformanceSummary_def unroundedRatio_def Let_def)
qed

lemma getPerformanceSummary_Inr:
  assumes "getPerformanceSummary now vehicleId s = Inr r"
  shows "\<exists>v. findUnique (\<lambda>v. vehicle_vehicleId v = vehicleId) (vehicle_tbl s) = Some v"
  using assms by (cases "findUnique (\<lambda>v. vehicle_vehicleId v = vehicleId) (vehicle_tbl s)")
    (simp_all add: getPerformanceSummary_def Let_def)

lemma unroundedRatio_nonneg: "0 \<le> unroundedRatio now v s"
  by (simp add: unroundedRatio_def efficiencyRatioOf_def totalDcDeliveredOf_def
      totalAcConsumedOf_def counterTotal_nonneg)

lemma round2_roundedTo2: "roundedTo2 x (round2 x)"
proof -
  have "\<bar>round2 x - x\<bar> \<le> 1 / 200"
    unfolding round2_def mathRound_def by linarith
  moreover have "of_int \<lfloor>round2 x * 100\<rfloor> = round2 x * 100"
    by (simp add: round2_def)
  ultimately show ?thesis
    by (simp add: roundedTo2_def)
qed

subsection \<open>The example states, evaluated\<close>

lemma endToEnd_eq:
  "endToEnd ac0 ac1 dc0 dc1 =
     \<lparr>meter_tbl = [\<lparr>meter_meterId = ''METER-001'', meter_name = ''Meter METER-001'',
                    meter_location = None\<rparr>],
      vehicle_tbl = [endToEndVehicle],
      meterReading_tbl =
        [\<lparr>mr_id = 0, mr_meterId = ''METER-001'', mr_kwhConsumedAc = ac0, mr_voltage = 230,
          mr_timestamp = 0\<rparr>,
         \<lparr>mr_id = 1, mr_meterId = ''METER-001'', mr_kwhConsumedAc = ac1, mr_voltage = 231,
          mr_timestamp = 3600000\<rparr>],
      vehicleReading_tbl =
        [\<lparr>vr_id = 0, vr_vehicleId = ''VEH-001'', vr_soc = 50, vr_kwhDeliveredDc = dc0,
          vr_batteryTemp = 30, vr_timestamp = 0\<rparr>,
         \<lparr>vr_id = 1, vr_vehicleId = ''VEH-001'', vr_soc = 50, vr_kwhDeliveredDc = dc1,
          vr_batteryTemp = 30, vr_timestamp = 3600000\<rparr>],
      meterCurrentState_tbl =
        [\<lparr>mcs_meterId = ''METER-001'', mcs_kwhConsumedAc = ac1, mcs_voltage = 231,
          mcs_lastTimestamp = 3600000\<rparr>],
      vehicleCurrentState_tbl =
        [\<lparr>vcs_vehicleId = ''VEH-001'', vcs_soc = 50, vcs_kwhDeliveredDc = dc1,
          vcs_batteryTemp = 30, vcs_lastTimestamp = 3600000\<rparr>]\<rparr>"
  by (simp add: endToEnd_def endToEndVehicle_def ingestMeterTelemetry_def
      ingestVehicleTelemetry_def associateVehicleWithMeter_def updateVehicleMeterId_def
      findUnique_def emptyDb_def registerMeter_def
      registerVehicle_def upsertMeterCurrentState_def upsertVehicleCurrentState_def
      meterReadingRow_def vehicleReadingRow_def Let_def)

lemma endToEnd_vehicle:
  "findUnique (\<lambda>v. vehicle_vehicleId v = ''VEH-001'') (vehicle_tbl (endToEnd ac0 ac1 dc0 dc1))
     = Some endToEndVehicle"
  by (simp add: endToEnd_eq findUnique_def endToEndVehicle_def)

lemma endToEnd_vehicleReadings:
  "findVehicleReadings ''VEH-001'' (- 82800000) 3600000 (endToEnd ac0 ac1 dc0 dc1) =
     [\<lparr>vr_id = 0, vr_vehicleId = ''VEH-001'', vr_soc = 50, vr_kwhDeliveredDc = dc0,
       vr_batteryTemp = 30, vr_timestamp = 0\<rparr>,
      \<lparr>vr_id = 1, vr_vehicleId = ''VEH-001'', vr_soc = 50, vr_kwhDeliveredDc = dc1,
       vr_batteryTemp = 30, vr_timestamp = 3600000\<rparr>]"
  by (simp add: endToEnd_eq findVehicleReadings_def)

lemma endToEnd_meterReadings:
  "associatedMeterReadings endToEndVehicle (- 82800000) 3600000 (endToEnd ac0 ac1 dc0 dc1) =
     [\<lparr>mr_id = 0, mr_meterId = ''METER-001'', mr_kwhConsumedAc = ac0, mr_voltage = 230,
       mr_timestamp = 0\<rparr>,
      \<lparr>mr_id = 1, mr_meterId = ''METER-001'', mr_kwhConsumedAc = ac1, mr_voltage = 231,
       mr_timestamp = 3600000\<rparr>]"
  by (simp add: endToEnd_eq associatedMeterReadings_def findMeterReadings_def
      endToEndVehicle_def)

lemma endToEnd_ratio:
  "unroundedRatio 3600000 endToEndVehicle (endToEnd ac0 ac1 dc0 dc1) =
     efficiencyRatioOf (counterTotal [dc0, dc1]) (counterTotal [ac0, ac1])"
proof -
  have "vehicle_vehicleId endToEndVehicle = ''VEH-001''"
    by (simp add: endToEndVehicle_def)
  then show ?thesis
    by (simp add: unroundedRatio_def endToEnd_vehicleReadings endToEnd_meterReadings
        totalDcDeliveredOf_def totalAcConsumedOf_def)
qed

lemma endToEnd_summary:
  "getPerformanceSummary 3600000 ''VEH-001'' (endToEnd ac0 ac1 dc0 dc1) =
     Inr \<lparr>ps_vehicleId = ''VEH-001'', ps_meterId = Some ''METER-001'',
          ps_periodStart = - 82800000, ps_periodEnd = 3600000,
          ps_totalAcConsumed = round2 (counterTotal [ac0, ac1]),
          ps_totalDcDelivered = round2 (counterTotal [dc0, dc1]),
          ps_efficiencyRatio =
            round2 (efficiencyRatioOf (counterTotal [dc0, dc1]) (counterTotal [ac0, ac1])),
          ps_avgBatteryTemp = 30, ps_vehicleReadingCount = 2, ps_meterReadingCount = 2,
          ps_efficiencyStatus =
            efficiencyStatusOf
              (efficiencyRatioOf (counterTotal [dc0, dc1]) (counterTotal [ac0, ac1]))\<rparr>"
proof -
  let ?vs = "findVehicleReadings ''VEH-001'' (- 82800000) 3600000 (endToEnd ac0 ac1 dc0 dc1)"
  let ?ms = "associatedMeterReadings endToEndVehicle (- 82800000) 3600000
               (endToEnd ac0 ac1 dc0 dc1)"
  have temp: "round2 (totalBatteryTempOf ?vs) = 30"
    by (simp add: endToEnd_vehicleReadings totalBatteryTempOf_def round2_def mathRound_def)
  have dc: "totalDcDeliveredOf ?vs = counterTotal [dc0, dc1]"
    by (simp add: endToEnd_vehicleReadings totalDcDeliveredOf_def)
  have ac: "totalAcConsumedOf ?ms = counterTotal [ac0, ac1]"
    by (simp add: endToEnd_meterReadings totalAcConsumedOf_def)
  have len: "length ?vs = 2" "length ?ms = 2"
    by (simp_all add: endToEnd_vehicleReadings endToEnd_meterReadings)
  have mid: "vehicle_meterId endToEndVehicle = Some ''METER-001''"
    by (simp add: endToEndVehicle_def)
  show ?thesis
    by (subst getPerformanceSummary_found [OF endToEnd_vehicle])
      (simp add: temp dc ac len mid endToEnd_ratio)
qed

subsection \<open>Status classification\<close>

text \<open>
  \<^bold>\<open>Claim C5.\<close>  For every performance summary, the efficiency status is \<open>HEALTHY\<close>
  when the efficiency ratio is at least 85, \<open>WARNING\<close> when it is at least 75 and below
  85, \<open>CRITICAL\<close> when it is strictly between 0 and 75, and \<open>HEALTHY\<close> when it is 0
  (no AC data).  The ratio is the one the summary computes, which is never negative.
\<close>

theorem efficiency_status_classification:
  assumes "getPerformanceSummary now vehicleId s = Inr r"
  shows "\<exists>v. findUnique (\<lambda>v. vehicle_vehicleId v = vehicleId) (vehicle_tbl s) = Some v
     \<and> 0 \<le> unroundedRatio now v s
     \<and> ps_efficiencyStatus r =
         (if unroundedRatio now v s \<ge> 85 then HEALTHY
          else if unroundedRatio now v s \<ge> 75 then WARNING
          else if unroundedRatio now v s > 0 then CRITICAL
          else HEALTHY)"
proof -
  obtain v where v: "findUnique (\<lambda>v. vehicle_vehicleId v = vehicleId) (vehicle_tbl s) = Some v"
    using getPerformanceSummary_Inr [OF assms] by blast
  have "ps_efficiencyStatus r = efficiencyStatusOf (unroundedRatio now v s)"
    using assms getPerformanceSummary_found [OF v, of now] by auto
  then have "ps_efficiencyStatus r =
         (if unroundedRatio now v s \<ge> 85 then HEALTHY
          else if unroundedRatio now v s \<ge> 75 then WARNING
          else if unroundedRatio now v s > 0 then CRITICAL
          else HEALTHY)"
    by (simp add: efficiencyStatusOf_def EFFICIENCY_THRESHOLD_WARNING_def
        EFFICIENCY_THRESHOLD_CRITICAL_def)
  with v unroundedRatio_nonneg show ?thesis
    by blast
qed

text \<open>The end-to-end scenario (AC \<open>1000 \<rightarrow> 1005\<close>, DC \<open>800 \<rightarrow> 804\<close>): ratio 80,
  \<open>WARNING\<close>; and the four ratios of the specification's examples.\<close>

theorem efficiency_status_classification_witness:
  "getPerformanceSummary 3600000 ''VEH-001'' (endToEnd 1000 1005 800 804) =
     Inr \<lparr>ps_vehicleId = ''VEH-001'', ps_meterId = Some ''METER-001'',
          ps_periodStart = - 82800000, ps_periodEnd = 3600000,
          ps_totalAcConsumed = 5, ps_totalDcDelivered = 4, ps_efficiencyRatio = 80,
          ps_avgBatteryTemp = 30, ps_vehicleReadingCount = 2, ps_meterReadingCount = 2,
          ps_efficiencyStatus = WARNING\<rparr>
   \<and> unroundedRatio 3600000 endToEndVehicle (endToEnd 1000 1005 800 804) = 80
   \<and> (\<exists>v. findUnique (\<lambda>v. vehicle_vehicleId v = ''VEH-001'')
              (vehicle_tbl (endToEnd 1000 1005 800 804)) = Some v
          \<and> 0 \<le> unroundedRatio 3600000 v (endToEnd 1000 1005 800 804)
          \<and> WARNING =
              (if unroundedRatio 3600000 v (endToEnd 1000 1005 800 804) \<ge> 85 then HEALTHY
               else if unroundedRatio 3600000 v (endToEnd 1000 1005 800 804) \<ge> 75 then WARNING
               else if unroundedRatio 3600000 v (endToEnd 1000 1005 800 804) > 0 then CRITICAL
               else HEALTHY))
   \<and> efficiencyStatusOf 86.2 = HEALTHY \<and> efficiencyStatusOf 80 = WARNING
   \<and> efficiencyStatusOf 50 = CRITICAL \<and> efficiencyStatusOf 0 = HEALTHY"
proof -
  have totals: "counterTotal [1000, 1005] = 5" "counterTotal [800, 804] = 4"
    by (simp_all add: counterTotal_def)
  have ratio: "efficiencyRatioOf 4 5 = 80"
    by (simp add: efficiencyRatioOf_def)
  have rounded: "round2 5 = 5" "round2 4 = 4" "round2 80 = 80"
    by (simp_all add: round2_def mathRound_def)
  have status: "efficiencyStatusOf 86.2 = HEALTHY" "efficiencyStatusOf 80 = WARNING"
      "efficiencyStatusOf 50 = CRITICAL" "efficiencyStatusOf 0 = HEALTHY"
    by (simp_all add: efficiencyStatusOf_def EFFICIENCY_THRESHOLD_WARNING_def
        EFFICIENCY_THRESHOLD_CRITICAL_def)
  have summary: "getPerformanceSummary 3600000 ''VEH-001'' (endToEnd 1000 1005 800 804) =
     Inr \<lparr>ps_vehicleId = ''VEH-001'', ps_meterId = Some ''METER-001'',
          ps_periodStart = - 82800000, ps_periodEnd = 3600000,
          ps_totalAcConsumed = 5, ps_totalDcDelivered = 4, ps_efficiencyRatio = 80,
          ps_avgBatteryTemp = 30, ps_vehicleReadingCount = 2, ps_meterReadingCount = 2,
          ps_efficiencyStatus = WARNING\<rparr>"
    by (simp add: endToEnd_summary totals ratio rounded status)
  have raw: "unroundedRatio 3600000 endToEndVehicle (endToEnd 1000 1005 800 804) = 80"
    by (simp add: endToEnd_ratio totals ratio)
  from efficiency_status_classification [OF summary] summary raw status
  show ?thesis
    by simp
qed

subsection \<open>Ratio and rounding\<close>

text \<open>
  \<^bold>\<open>Claim C6.\<close>  For every performance summary, the efficiency ratio is
  \<open>(totalDcDelivered / totalAcConsumed) \<times> 100\<close> when \<open>totalAcConsumed > 0\<close> and \<open>0\<close>
  otherwise, and every reported number (both energy totals, the ratio and the average
  battery temperature) is the computed value rounded to two decimal places.
\<close>

theorem efficiency_ratio_and_rounding:
  assumes "getPerformanceSummary now vehicleId s = Inr r"
  shows "\<exists>v. findUnique (\<lambda>v. vehicle_vehicleId v = vehicleId) (vehicle_tbl s) = Some v
     \<and> (let periodStart = now - 24 * 60 * 60 * 1000;
             totalDc = totalDcDeliveredOf (findVehicleReadings vehicleId periodStart now s);
             totalAc = totalAcConsumedOf (associatedMeterReadings v periodStart now s);
             ratio = (if totalAc > 0 then (totalDc / totalAc) * 100 else 0);
             avgTemp = totalBatteryTempOf (findVehicleReadings vehicleId periodStart now s)
         in unroundedRatio now v s = ratio
            \<and> roundedTo2 totalAc (ps_totalAcConsumed r)
            \<and> roundedTo2 totalDc (ps_totalDcDelivered r)
            \<and> roundedTo2 ratio (ps_efficiencyRatio r)
            \<and> roundedTo2 avgTemp (ps_avgBatteryTemp r))"
proof -
  obtain v where v: "findUnique (\<lambda>v. vehicle_vehicleId v = vehicleId) (vehicle_tbl s) = Some v"
    using getPerformanceSummary_Inr [OF assms] by blast
  have key: "vehicle_vehicleId v = vehicleId"
    using v by (auto simp: findUnique_def find_Some_iff)
  have r: "r = \<lparr>ps_vehicleId = vehicleId,
          ps_meterId = vehicle_meterId v,
          ps_periodStart = now - 86400000,
          ps_periodEnd = now,
          ps_totalAcConsumed =
            round2 (totalAcConsumedOf (associatedMeterReadings v (now - 86400000) now s)),
          ps_totalDcDelivered =
            round2 (totalDcDeliveredOf (findVehicleReadings vehicleId (now - 86400000) now s)),
          ps_efficiencyRatio = round2 (unroundedRatio now v s),
          ps_avgBatteryTemp =
            round2 (totalBatteryTempOf (findVehicleReadings vehicleId (now - 86400000) now s)),
          ps_vehicleReadingCount =
            length (findVehicleReadings vehicleId (now - 86400000) now s),
          ps_meterReadingCount = length (associatedMeterReadings v (now - 86400000) now s),
          ps_efficiencyStatus = efficiencyStatusOf (unroundedRatio now v s)\<rparr>"
    using assms getPerformanceSummary_found [OF v, of now] by simp
  have ratio: "unroundedRatio now v s =
      (if totalAcConsumedOf (associatedMeterReadings v (now - 86400000) now s) > 0
       then (totalDcDeliveredOf (findVehicleReadings vehicleId (now - 86400000) now s)
               / totalAcConsumedOf (associatedMeterReadings v (now - 86400000) now s)) * 100
       else 0)"
    by (simp add: unroundedRatio_def efficiencyRatioOf_def key)
  have "unroundedRatio now v s =
      (if totalAcConsumedOf (associatedMeterReadings v (now - 86400000) now s) > 0
       then (totalDcDeliveredOf (findVehicleReadings vehicleId (now - 86400000) now s)
               / totalAcConsumedOf (associatedMeterReadings v (now - 86400000) now s)) * 100
       else 0)
     \<and> roundedTo2 (totalAcConsumedOf (associatedMeterReadings v (now - 86400000) now s))
          (ps_totalAcConsumed r)
     \<and> roundedTo2 (totalDcDeliveredOf (findVehicleReadings vehicleId (now - 86400000) now s))
          (ps_totalDcDelivered r)
     \<and> roundedTo2 (unroundedRatio now v s) (ps_efficiencyRatio r)
     \<and> roundedTo2 (totalBatteryTempOf (findVehicleReadings vehicleId (now - 86400000) now s))
          (ps_avgBatteryTemp r)"
    using ratio by (simp add: r round2_roundedTo2)
  then show ?thesis
    using v ratio by (auto simp: Let_def)
qed

text \<open>A summary where rounding matters: AC \<open>0 \<rightarrow> 3\<close>, DC \<open>0 \<rightarrow> 2\<close>, ratio
  \<open>66.666\<dots>\<close>, reported as \<open>66.67\<close>.\<close>

theorem efficiency_ratio_and_rounding_witness:
  "getPerformanceSummary 3600000 ''VEH-001'' (endToEnd 0 3 0 2) =
     Inr \<lparr>ps_vehicleId = ''VEH-001'', ps_meterId = Some ''METER-001'',
          ps_periodStart = - 82800000, ps_periodEnd = 3600000,
          ps_totalAcConsumed = 3, ps_totalDcDelivered = 2, ps_efficiencyRatio = 66.67,
          ps_avgBatteryTemp = 30, ps_vehicleReadingCount = 2, ps_meterReadingCount = 2,
          ps_efficiencyStatus = CRITICAL\<rparr>
   \<and> unroundedRatio 3600000 endToEndVehicle (endToEnd 0 3 0 2) = 200 / 3
   \<and> roundedTo2 (200 / 3) 66.67
   \<and> (\<exists>v. findUnique (\<lambda>v. vehicle_vehicleId v = ''VEH-001'')
              (vehicle_tbl (endToEnd 0 3 0 2)) = Some v
          \<and> roundedTo2 (unroundedRatio 3600000 v (endToEnd 0 3 0 2)) 66.67)"
proof -
  have totals: "counterTotal [0, 3] = 3" "counterTotal [0, 2] = 2"
    by (simp_all add: counterTotal_def)
  have ratio: "efficiencyRatioOf 2 3 = 200 / 3"
    by (simp add: efficiencyRatioOf_def)
  have rounded: "round2 3 = 3" "round2 2 = 2" "round2 (200 / 3) = 66.67"
    by (simp_all add: round2_def mathRound_def)
  have status: "efficiencyStatusOf (200 / 3) = CRITICAL"
    by (simp add: efficiencyStatusOf_def EFFICIENCY_THRESHOLD_WARNING_def
        EFFICIENCY_THRESHOLD_CRITICAL_def)
  have summary: "getPerformanceSummary 3600000 ''VEH-001'' (endToEnd 0 3 0 2) =
     Inr \<lparr>ps_vehicleId = ''VEH-001'', ps_meterId = Some ''METER-001'',
          ps_periodStart = - 82800000, ps_periodEnd = 3600000,
          ps_totalAcConsumed = 3, ps_totalDcDelivered = 2, ps_efficiencyRatio = 66.67,
          ps_avgBatteryTemp = 30, ps_vehicleReadingCount = 2, ps_meterReadingCount = 2,
          ps_efficiencyStatus = CRITICAL\<rparr>"
    by (simp add: endToEnd_summary totals ratio rounded status)
  have raw: "unroundedRatio 3600000 endToEndVehicle (endToEnd 0 3 0 2) = 200 / 3"
    by (simp add: endToEnd_ratio totals ratio)
  have near: "roundedTo2 (200 / 3) 66.67"
    by (simp add: roundedTo2_def)
  from efficiency_ratio_and_rounding [OF summary]
  have "\<exists>v. findUnique (\<lambda>v. vehicle_vehicleId v = ''VEH-001'')
              (vehicle_tbl (endToEnd 0 3 0 2)) = Some v
          \<and> roundedTo2 (unroundedRatio 3600000 v (endToEnd 0 3 0 2)) 66.67"
    by (auto simp: Let_def)
  with summary raw near show ?thesis
    by blast
qed

subsection \<open>Classification precedes rounding\<close>

text \<open>
  \<^bold>\<open>Claim C9.\<close>  The performance summary classifies the efficiency status on the
  unrounded efficiency ratio and only afterwards rounds the reported ratio to two
  decimal places; so for some reading series (an exact ratio of 84.999) the response
  reports \<open>efficiencyRatio = 85.0\<close> together with \<open>efficiencyStatus = WARNING\<close>.
\<close>

theorem status_classified_before_rounding:
  assumes "getPerformanceSummary now vehicleId s = Inr r"
  shows "(\<exists>v. findUnique (\<lambda>v. vehicle_vehicleId v = vehicleId) (vehicle_tbl s) = Some v
            \<and> ps_efficiencyStatus r = efficiencyStatusOf (unroundedRatio now v s)
            \<and> ps_efficiencyRatio r = round2 (unroundedRatio now v s))
     \<and> (\<exists>now' vehicleId' s' r'.
            getPerformanceSummary now' vehicleId' s' = Inr r'
            \<and> ps_efficiencyRatio r' = 85 \<and> ps_efficiencyStatus r' = WARNING)"
proof -
  obtain v where v: "findUnique (\<lambda>v. vehicle_vehicleId v = vehicleId) (vehicle_tbl s) = Some v"
    using getPerformanceSummary_Inr [OF assms] by blast
  have general: "ps_efficiencyStatus r = efficiencyStatusOf (unroundedRatio now v s)
      \<and> ps_efficiencyRatio r = round2 (unroundedRatio now v s)"
    using assms getPerformanceSummary_found [OF v, of now] by auto
  have totals: "counterTotal [0, 100] = 100" "counterTotal [0, 84999 / 1000] = 84999 / 1000"
    by (simp_all add: counterTotal_def)
  have ratio: "efficiencyRatioOf (84999 / 1000) 100 = 84999 / 1000"
    by (simp add: efficiencyRatioOf_def)
  have rounded: "round2 (84999 / 1000) = 85"
    by (simp add: round2_def mathRound_def)
  have status: "efficiencyStatusOf (84999 / 1000) = WARNING"
    by (simp add: efficiencyStatusOf_def EFFICIENCY_THRESHOLD_WARNING_def
        EFFICIENCY_THRESHOLD_CRITICAL_def)
  have "\<exists>r'. getPerformanceSummary 3600000 ''VEH-001'' (endToEnd 0 100 0 84.999) = Inr r'
      \<and> ps_efficiencyRatio r' = 85 \<and> ps_efficiencyStatus r' = WARNING"
    by (simp add: endToEnd_summary totals ratio rounded status)
  then have "\<exists>now' vehicleId' s' r'.
            getPerformanceSummary now' vehicleId' s' = Inr r'
            \<and> ps_efficiencyRatio r' = 85 \<and> ps_efficiencyStatus r' = WARNING"
    by blast
  with v general show ?thesis
    by blast
qed

text \<open>The series behind the example: AC \<open>0 \<rightarrow> 100\<close>, DC \<open>0 \<rightarrow> 84.999\<close>.\<close>

theorem status_classified_before_rounding_witness:
  "getPerformanceSummary 3600000 ''VEH-001'' (endToEnd 0 100 0 84.999) =
     Inr \<lparr>ps_vehicleId = ''VEH-001'', ps_meterId = Some ''METER-001'',
          ps_periodStart = - 82800000, ps_periodEnd = 3600000,
          ps_totalAcConsumed = 100, ps_totalDcDelivered = 85, ps_efficiencyRatio = 85,
          ps_avgBatteryTemp = 30, ps_vehicleReadingCount = 2, ps_meterReadingCount = 2,
          ps_efficiencyStatus = WARNING\<rparr>
   \<and> unroundedRatio 3600000 endToEndVehicle (endToEnd 0 100 0 84.999) = 84.999
   \<and> (\<exists>v. findUnique (\<lambda>v. vehicle_vehicleId v = ''VEH-001'')
              (vehicle_tbl (endToEnd 0 100 0 84.999)) = Some v
          \<and> WARNING = efficiencyStatusOf (unroundedRatio 3600000 v (endToEnd 0 100 0 84.999))
          \<and> 85 = round2 (unroundedRatio 3600000 v (endToEnd 0 100 0 84.999)))"
proof -
  have totals: "counterTotal [0, 100] = 100" "counterTotal [0, 84999 / 1000] = 84999 / 1000"
    by (simp_all add: counterTotal_def)
  have ratio: "efficiencyRatioOf (84999 / 1000) 100 = 84999 / 1000"
    by (simp add: efficiencyRatioOf_def)
  have rounded: "round2 (84999 / 1000) = 85" "round2 100 = 100"
    by (simp_all add: round2_def mathRound_def)
  have status: "efficiencyStatusOf (84999 / 1000) = WARNING"
    by (simp add: efficiencyStatusOf_def EFFICIENCY_THRESHOLD_WARNING_def
        EFFICIENCY_THRESHOLD_CRITICAL_def)
  have summary: "getPerformanceSummary 3600000 ''VEH-001'' (endToEnd 0 100 0 84.999) =
     Inr \<lparr>ps_vehicleId = ''VEH-001'', ps_meterId = Some ''METER-001'',
          ps_periodStart = - 82800000, ps_periodEnd = 3600000,
          ps_totalAcConsumed = 100, ps_totalDcDelivered = 85, ps_efficiencyRatio = 85,
          ps_avgBatteryTemp = 30, ps_vehicleReadingCount = 2, ps_meterReadingCount = 2,
          ps_efficiencyStatus = WARNING\<rparr>"
    by (simp add: endToEnd_summary totals ratio rounded status)
  have raw: "unroundedRatio 3600000 endToEndVehicle (endToEnd 0 100 0 84.999) = 84.999"
    by (simp add: endToEnd_ratio totals ratio)
  from status_classified_before_rounding [OF summary]
  have "\<exists>v. findUnique (\<lambda>v. vehicle_vehicleId v = ''VEH-001'')
              (vehicle_tbl (endToEnd 0 100 0 84.999)) = Some v
          \<and> WARNING = efficiencyStatusOf (unroundedRatio 3600000 v (endToEnd 0 100 0 84.999))
          \<and> 85 = round2 (unroundedRatio 3600000 v (endToEnd 0 100 0 84.999))"
    by auto
  with summary raw show ?thesis
    by blast
qed

section \<open>Analytics: fleet statistics\<close>

lemma fold_add_sum_list:
  "fold (\<lambda>v acc. acc + f v) xs (a::real) = a + sum_list (map f xs)"
  by (induction xs arbitrary: a) (simp_all add: add.assoc)

lemma activeVehicleStates_isActive:
  "activeVehicleStates now s =
     filter (\<lambda>v. isActive now (vcs_lastTimestamp v)) (vehicleCurrentState_tbl s)"
  by (simp add: activeVehicleStates_def isActive_def Let_def)

lemma activeMeterStates_isActive:
  "activeMeterStates now s =
     filter (\<lambda>m. isActive now (mcs_lastTimestamp m)) (meterCurrentState_tbl s)"
  by (simp add: activeMeterStates_def isActive_def Let_def)

lemma avgFleetSoc_mean:
  "avgFleetSoc now s = meanOf (map vcs_soc (activeVehicleStates now s))"
  by (simp add: avgFleetSoc_def meanOf_def fold_add_sum_list)

lemma avgFleetBatteryTemp_mean:
  "avgFleetBatteryTemp now s = meanOf (map vcs_batteryTemp (activeVehicleStates now s))"
  by (simp add: avgFleetBatteryTemp_def meanOf_def fold_add_sum_list)

lemma round2_zero: "round2 0 = 0"
  by (simp add: round2_def mathRound_def)

text \<open>
  \<^bold>\<open>Claim C8.\<close>  For every set of current-state rows and every reference time \<open>now\<close>,
  the fleet statistics count a device as active exactly when its last timestamp is at
  least \<open>now - 5 min\<close> (so a device last seen ten minutes ago is left out of the active
  counts and the averages), and compute the mean state of charge and the mean battery
  temperature over the active vehicles only, returning \<open>0\<close> for both averages when no
  vehicle is active.  The response carries each mean rounded to two decimal places.
\<close>

theorem fleet_stats_active_only:
  "fs_activeVehicles (getFleetStats now s)
     = length (filter (\<lambda>v. isActive now (vcs_lastTimestamp v)) (vehicleCurrentState_tbl s))
   \<and> fs_activeMeters (getFleetStats now s)
     = length (filter (\<lambda>m. isActive now (mcs_lastTimestamp m)) (meterCurrentState_tbl s))
   \<and> avgFleetSoc now s
     = meanOf (map vcs_soc
         (filter (\<lambda>v. isActive now (vcs_lastTimestamp v)) (vehicleCurrentState_tbl s)))
   \<and> avgFleetBatteryTemp now s
     = meanOf (map vcs_batteryTemp
         (filter (\<lambda>v. isActive now (vcs_lastTimestamp v)) (vehicleCurrentState_tbl s)))
   \<and> fs_avgFleetSoc (getFleetStats now s) = round2 (avgFleetSoc now s)
   \<and> fs_avgFleetBatteryTemp (getFleetStats now s) = round2 (avgFleetBatteryTemp now s)
   \<and> \<not> isActive now (now - 10 * 60 * 1000)
   \<and> (filter (\<lambda>v. isActive now (vcs_lastTimestamp v)) (vehicleCurrentState_tbl s) = []
        \<longrightarrow> fs_avgFleetSoc (getFleetStats now s) = 0
          \<and> fs_avgFleetBatteryTemp (getFleetStats now s) = 0)"
proof -
  have counts: "fs_activeVehicles (getFleetStats now s)
       = length (filter (\<lambda>v. isActive now (vcs_lastTimestamp v)) (vehicleCurrentState_tbl s))"
    "fs_activeMeters (getFleetStats now s)
       = length (filter (\<lambda>m. isActive now (mcs_lastTimestamp m)) (meterCurrentState_tbl s))"
    by (simp_all add: getFleetStats_def activeVehicleStates_isActive activeMeterStates_isActive)
  have means: "avgFleetSoc now s
       = meanOf (map vcs_soc
           (filter (\<lambda>v. isActive now (vcs_lastTimestamp v)) (vehicleCurrentState_tbl s)))"
    "avgFleetBatteryTemp now s
       = meanOf (map vcs_batteryTemp
           (filter (\<lambda>v. isActive now (vcs_lastTimestamp v)) (vehicleCurrentState_tbl s)))"
    by (simp_all add: avgFleetSoc_mean avgFleetBatteryTemp_mean activeVehicleStates_isActive)
  have reported: "fs_avgFleetSoc (getFleetStats now s) = round2 (avgFleetSoc now s)"
    "fs_avgFleetBatteryTemp (getFleetStats now s) = round2 (avgFleetBatteryTemp now s)"
    by (simp_all add: getFleetStats_def)
  have stale: "\<not> isActive now (now - 10 * 60 * 1000)"
    by (simp add: isActive_def)
  have none: "filter (\<lambda>v. isActive now (vcs_lastTimestamp v)) (vehicleCurrentState_tbl s) = []
        \<longrightarrow> fs_avgFleetSoc (getFleetStats now s) = 0
          \<and> fs_avgFleetBatteryTemp (getFleetStats now s) = 0"
    by (simp add: reported means meanOf_def round2_zero)
  from counts means reported stale none show ?thesis
    by blast
qed

text \<open>At time \<open>600000\<close>: the fleet with only the ten-minute-old vehicle has no active
  vehicle and both averages \<open>0\<close>; in the mixed fleet the ten-minute-old vehicle is left
  out, the one seen exactly five minutes ago is counted.\<close>

theorem fleet_stats_active_only_witness:
  "filter (\<lambda>v. isActive 600000 (vcs_lastTimestamp v)) (vehicleCurrentState_tbl staleFleetDb) = []
   \<and> getFleetStats 600000 staleFleetDb =
       \<lparr>fs_totalVehicles = 0, fs_totalMeters = 0, fs_activeVehicles = 0, fs_activeMeters = 0,
        fs_avgFleetSoc = 0, fs_avgFleetBatteryTemp = 0\<rparr>
   \<and> getFleetStats 600000 fleetDb =
       \<lparr>fs_totalVehicles = 0, fs_totalMeters = 0, fs_activeVehicles = 2, fs_activeMeters = 1,
        fs_avgFleetSoc = 70, fs_avgFleetBatteryTemp = 35\<rparr>"
proof -
  have none: "filter (\<lambda>v. isActive 600000 (vcs_lastTimestamp v))
      (vehicleCurrentState_tbl staleFleetDb) = []"
    by (simp add: staleFleetDb_def emptyDb_def isActive_def)
  from fleet_stats_active_only [of 600000 staleFleetDb] none
  have avgs: "fs_avgFleetSoc (getFleetStats 600000 staleFleetDb) = 0"
    "fs_avgFleetBatteryTemp (getFleetStats 600000 staleFleetDb) = 0"
    "fs_activeVehicles (getFleetStats 600000 staleFleetDb) = 0"
    by (simp_all add: meanOf_def round2_zero)
  have rest: "fs_totalVehicles (getFleetStats 600000 staleFleetDb) = 0"
    "fs_totalMeters (getFleetStats 600000 staleFleetDb) = 0"
    "fs_activeMeters (getFleetStats 600000 staleFleetDb) = 0"
    by (simp_all add: getFleetStats_def staleFleetDb_def emptyDb_def activeMeterStates_def)
  have staleStats: "getFleetStats 600000 staleFleetDb =
       \<lparr>fs_totalVehicles = 0, fs_totalMeters = 0, fs_activeVehicles = 0, fs_activeMeters = 0,
        fs_avgFleetSoc = 0, fs_avgFleetBatteryTemp = 0\<rparr>"
    using avgs rest by (cases "getFleetStats 600000 staleFleetDb") simp
  have active: "activeVehicleStates 600000 fleetDb =
      [\<lparr>vcs_vehicleId = ''VEH-B'', vcs_soc = 80, vcs_kwhDeliveredDc = 2, vcs_batteryTemp = 30,
         vcs_lastTimestamp = 300000\<rparr>,
       \<lparr>vcs_vehicleId = ''VEH-C'', vcs_soc = 60, vcs_kwhDeliveredDc = 3, vcs_batteryTemp = 40,
         vcs_lastTimestamp = 600000\<rparr>]"
    by (simp add: activeVehicleStates_def fleetDb_def emptyDb_def)
  have activeM: "length (activeMeterStates 600000 fleetDb) = 1"
    by (simp add: activeMeterStates_def fleetDb_def emptyDb_def)
  have avg: "avgFleetSoc 600000 fleetDb = 70" "avgFleetBatteryTemp 600000 fleetDb = 35"
    by (simp_all add: avgFleetSoc_def avgFleetBatteryTemp_def active)
  have r: "round2 70 = 70" "round2 35 = 35"
    by (simp_all add: round2_def mathRound_def)
  have mixed: "getFleetStats 600000 fleetDb =
       \<lparr>fs_totalVehicles = 0, fs_totalMeters = 0, fs_activeVehicles = 2, fs_activeMeters = 1,
        fs_avgFleetSoc = 70, fs_avgFleetBatteryTemp = 35\<rparr>"
    by (simp add: getFleetStats_def active activeM avg r) (simp add: fleetDb_def emptyDb_def)
  from none staleStats mixed show ?thesis
    by blast
qed

section \<open>Ingestion: single readings\<close>

lemma find_SomeD: "find P xs = Some x \<Longrightarrow> P x"
  by (induction xs) (auto split: if_splits)

lemma find_upsert_same:
  assumes "wh cre" and "\<And>r. wh r \<Longrightarrow> wh (upd r)"
  shows "find wh (upsert wh upd cre rows)
           = Some (case find wh rows of None \<Rightarrow> cre | Some r \<Rightarrow> upd r)"
  using assms by (induction rows) auto

lemma find_upsert_other:
  assumes "\<not> P cre" and "\<And>r. Q r \<Longrightarrow> \<not> P r \<and> \<not> P (upd r)"
  shows "find P (upsert Q upd cre rows) = find P rows"
  using assms by (induction rows) auto

lemma meter_upsert_same:
  "findUnique (\<lambda>c. mcs_meterId c = d) (upsertMeterCurrentState d dto tbl) =
     Some \<lparr>mcs_meterId = d, mcs_kwhConsumedAc = mt_kwhConsumedAc dto,
           mcs_voltage = mt_voltage dto, mcs_lastTimestamp = mt_timestamp dto\<rparr>"
proof -
  have "find (\<lambda>c. mcs_meterId c = d) (upsertMeterCurrentState d dto tbl) =
      Some (case find (\<lambda>c. mcs_meterId c = d) tbl of
              None \<Rightarrow> \<lparr>mcs_meterId = d, mcs_kwhConsumedAc = mt_kwhConsumedAc dto,
                        mcs_voltage = mt_voltage dto, mcs_lastTimestamp = mt_timestamp dto\<rparr>
            | Some c \<Rightarrow> c\<lparr>mcs_kwhConsumedAc := mt_kwhConsumedAc dto,
                           mcs_voltage := mt_voltage dto,
                           mcs_lastTimestamp := mt_timestamp dto\<rparr>)"
    unfolding upsertMeterCurrentState_def by (rule find_upsert_same) simp_all
  moreover have "c\<lparr>mcs_kwhConsumedAc := a, mcs_voltage := b, mcs_lastTimestamp := t\<rparr>
      = \<lparr>mcs_meterId = d, mcs_kwhConsumedAc = a, mcs_voltage = b, mcs_lastTimestamp = t\<rparr>"
    if "find (\<lambda>c. mcs_meterId c = d) tbl = Some c" for c a b t
    using find_SomeD [OF that] by (cases c) simp
  ultimately show ?thesis
    by (cases "find (\<lambda>c. mcs_meterId c = d) tbl") (simp_all add: findUnique_def)
qed

lemma meter_upsert_other:
  "k \<noteq> d \<Longrightarrow>
   findUnique (\<lambda>c. mcs_meterId c = d) (upsertMeterCurrentState k dto tbl)
     = findUnique (\<lambda>c. mcs_meterId c = d) tbl"
  unfolding upsertMeterCurrentState_def findUnique_def
  by (rule find_upsert_other) auto

lemma vehicle_upsert_same:
  "findUnique (\<lambda>c. vcs_vehicleId c = d) (upsertVehicleCurrentState d dto tbl) =
     Some \<lparr>vcs_vehicleId = d, vcs_soc = vt_soc dto, vcs_kwhDeliveredDc = vt_kwhDeliveredDc dto,
           vcs_batteryTemp = vt_batteryTemp dto, vcs_lastTimestamp = vt_timestamp dto\<rparr>"
proof -
  have "find (\<lambda>c. vcs_vehicleId c = d) (upsertVehicleCurrentState d dto tbl) =
      Some (case find (\<lambda>c. vcs_vehicleId c = d) tbl of
              None \<Rightarrow> \<lparr>vcs_vehicleId = d, vcs_soc = vt_soc dto,
                        vcs_kwhDeliveredDc = vt_kwhDeliveredDc dto,
                        vcs_batteryTemp = vt_batteryTemp dto,
                        vcs_lastTimestamp = vt_timestamp dto\<rparr>
            | Some c \<Rightarrow> c\<lparr>vcs_soc := vt_soc dto,
                           vcs_kwhDeliveredDc := vt_kwhDeliveredDc dto,
                           vcs_batteryTemp := vt_batteryTemp dto,
                           vcs_lastTimestamp := vt_timestamp dto\<rparr>)"
    unfolding upsertVehicleCurrentState_def by (rule find_upsert_same) simp_all
  moreover have "c\<lparr>vcs_soc := a, vcs_kwhDeliveredDc := b, vcs_batteryTemp := e,
        vcs_lastTimestamp := t\<rparr>
      = \<lparr>vcs_vehicleId = d, vcs_soc = a, vcs_kwhDeliveredDc = b, vcs_batteryTemp = e,
         vcs_lastTimestamp = t\<rparr>"
    if "find (\<lambda>c. vcs_vehicleId c = d) tbl = Some c" for c a b e t
    using find_SomeD [OF that] by (cases c) simp
  ultimately show ?thesis
    by (cases "find (\<lambda>c. vcs_vehicleId c = d) tbl") (simp_all add: findUnique_def)
qed

lemma vehicle_upsert_other:
  "k \<noteq> d \<Longrightarrow>
   findUnique (\<lambda>c. vcs_vehicleId c = d) (upsertVehicleCurrentState k dto tbl)
     = findUnique (\<lambda>c. vcs_vehicleId c = d) tbl"
  unfolding upsertVehicleCurrentState_def findUnique_def
  by (rule find_upsert_other) auto

lemma meterStateOf_ingest:
  "meterStateOf d (fst (ingestMeterTelemetry dto s)) =
     (if mt_meterId dto = d
      then Some \<lparr>mcs_meterId = d, mcs_kwhConsumedAc = mt_kwhConsumedAc dto,
                 mcs_voltage = mt_voltage dto, mcs_lastTimestamp = mt_timestamp dto\<rparr>
      else meterStateOf d s)"
  by (simp add: meterStateOf_def ingestMeterTelemetry_def Let_def meter_upsert_same
      meter_upsert_other)

lemma vehicleStateOf_ingest:
  "vehicleStateOf d (fst (ingestVehicleTelemetry dto s)) =
     (if vt_vehicleId dto = d
      then Some \<lparr>vcs_vehicleId = d, vcs_soc = vt_soc dto,
                 vcs_kwhDeliveredDc = vt_kwhDeliveredDc dto,
                 vcs_batteryTemp = vt_batteryTemp dto, vcs_lastTimestamp = vt_timestamp dto\<rparr>
      else vehicleStateOf d s)"
  by (simp add: vehicleStateOf_def ingestVehicleTelemetry_def Let_def vehicle_upsert_same
      vehicle_upsert_other)

text \<open>
  \<^bold>\<open>Claim C4.\<close>  For every reading, \<open>ingest\<close> followed by \<open>currentState\<close> for the same
  device returns exactly the submitted measurement values, with \<open>lastTimestamp\<close> equal
  to the submitted observation timestamp: the current-state row is replaced with the
  incoming values whatever row the store held before, a newer one included.
\<close>

theorem ingest_then_current_state:
  "getCurrentState (vt_vehicleId dto) (fst (ingestVehicleTelemetry dto s)) =
     Inr \<lparr>cs_vehicleId = vt_vehicleId dto,
          cs_currentSoc = vt_soc dto,
          cs_currentBatteryTemp = vt_batteryTemp dto,
          cs_lastKwhDeliveredDc = vt_kwhDeliveredDc dto,
          cs_lastUpdated = vt_timestamp dto\<rparr>
   \<and> meterStateOf (mt_meterId mdto) (fst (ingestMeterTelemetry mdto s)) =
     Some \<lparr>mcs_meterId = mt_meterId mdto,
           mcs_kwhConsumedAc = mt_kwhConsumedAc mdto,
           mcs_voltage = mt_voltage mdto,
           mcs_lastTimestamp = mt_timestamp mdto\<rparr>"
proof -
  have "vehicleStateOf (vt_vehicleId dto) (fst (ingestVehicleTelemetry dto s)) =
      Some \<lparr>vcs_vehicleId = vt_vehicleId dto, vcs_soc = vt_soc dto,
            vcs_kwhDeliveredDc = vt_kwhDeliveredDc dto,
            vcs_batteryTemp = vt_batteryTemp dto, vcs_lastTimestamp = vt_timestamp dto\<rparr>"
    by (simp add: vehicleStateOf_ingest)
  then have "getCurrentState (vt_vehicleId dto) (fst (ingestVehicleTelemetry dto s)) =
     Inr \<lparr>cs_vehicleId = vt_vehicleId dto,
          cs_currentSoc = vt_soc dto,
          cs_currentBatteryTemp = vt_batteryTemp dto,
          cs_lastKwhDeliveredDc = vt_kwhDeliveredDc dto,
          cs_lastUpdated = vt_timestamp dto\<rparr>"
    by (simp add: getCurrentState_def vehicleStateOf_def)
  then show ?thesis
    by (simp add: meterStateOf_ingest)
qed

section \<open>Ingestion: the empty batch\<close>

text \<open>
  \<^bold>\<open>Claim C10.\<close>  \<open>ingestBatch\<close> called with an empty sequence of readings does not
  fail: it succeeds, returns count \<open>0\<close> with an empty set of device ids, and leaves
  every table of the store (devices, readings, current state) unchanged.
\<close>

theorem empty_batch_is_noop:
  "batchIngestMeterTelemetry [] s = (s, \<lparr>ba_success = True, ba_count = 0, ba_ids = []\<rparr>)
   \<and> batchIngestVehicleTelemetry [] s = (s, \<lparr>ba_success = True, ba_count = 0, ba_ids = []\<rparr>)"
  by (simp add: batchIngestMeterTelemetry_def batchIngestVehicleTelemetry_def distinctIds_def
      latestByMeter_def latestByVehicle_def enumerate_eq_zip)

section \<open>Association of a vehicle with a meter\<close>

lemma updateRow_none:
  "find wh rows = None \<Longrightarrow> updateRow wh upd rows = Inl RecordNotFound"
  by (induction rows) (auto split: if_splits)

lemma updateRow_some:
  assumes "find wh rows = Some r" and "\<And>x. wh x \<Longrightarrow> wh (upd x)"
  shows "\<exists>rows'. updateRow wh upd rows = Inr rows' \<and> find wh rows' = Some (upd r)"
  using assms by (induction rows) (auto split: if_splits)

lemma associate_unknown_vehicle:
  assumes "vehicleOf vehicleId s = None"
  shows "associateVehicleWithMeter vehicleId meterId s = Inl RecordNotFound"
  using assms
  by (simp add: associateVehicleWithMeter_def updateVehicleMeterId_def vehicleOf_def
      findUnique_def updateRow_none)

lemma associate_known_vehicle:
  assumes "vehicleOf vehicleId s = Some v"
  shows "\<exists>tbl. find (\<lambda>v. vehicle_vehicleId v = vehicleId) tbl
            = Some (v\<lparr>vehicle_meterId := Some meterId\<rparr>)
          \<and> associateVehicleWithMeter vehicleId meterId s =
              (case meterOf meterId s of
                 None \<Rightarrow> Inl ForeignKeyConstraintFailed
               | Some m \<Rightarrow> Inr (s\<lparr>vehicle_tbl := tbl\<rparr>, True))"
proof -
  have found: "find (\<lambda>v. vehicle_vehicleId v = vehicleId) (vehicle_tbl s) = Some v"
    using assms by (simp add: vehicleOf_def findUnique_def)
  have "\<exists>rows'. updateRow (\<lambda>v. vehicle_vehicleId v = vehicleId)
            (\<lambda>v. v\<lparr>vehicle_meterId := Some meterId\<rparr>) (vehicle_tbl s) = Inr rows'
          \<and> find (\<lambda>v. vehicle_vehicleId v = vehicleId) rows'
              = Some (v\<lparr>vehicle_meterId := Some meterId\<rparr>)"
    by (rule updateRow_some [OF found]) simp
  then obtain rows' where
    rows': "updateRow (\<lambda>v. vehicle_vehicleId v = vehicleId)
              (\<lambda>v. v\<lparr>vehicle_meterId := Some meterId\<rparr>) (vehicle_tbl s) = Inr rows'"
      "find (\<lambda>v. vehicle_vehicleId v = vehicleId) rows'
         = Some (v\<lparr>vehicle_meterId := Some meterId\<rparr>)"
    by blast
  have "associateVehicleWithMeter vehicleId meterId s =
      (case meterOf meterId s of
         None \<Rightarrow> Inl ForeignKeyConstraintFailed
       | Some m \<Rightarrow> Inr (s\<lparr>vehicle_tbl := rows'\<rparr>, True))"
    by (simp add: associateVehicleWithMeter_def updateVehicleMeterId_def rows'(1) meterOf_def
        split: option.splits)
  with rows'(2) show ?thesis
    by blast
qed

text \<open>
  \<^bold>\<open>Claim C7\<close> (as amended).  \<open>associate(vehicleId, meterId)\<close> fails when the vehicle
  id is unknown.  When the vehicle exists, the service does not look the meter up
  itself, but the store's reference from vehicle to meter rejects a meter id that no
  meter carries, and the call fails for it; when the vehicle and the meter both exist,
  the call sets or replaces the vehicle's meter reference, leaves every other table as
  it was, and succeeds.
\<close>

theorem associate_needs_vehicle_and_meter:
  "(vehicleOf vehicleId s = None
      \<longrightarrow> isl (associateVehicleWithMeter vehicleId meterId s))
   \<and> (vehicleOf vehicleId s = Some v \<and> meterOf meterId s = None
      \<longrightarrow> isl (associateVehicleWithMeter vehicleId meterId s))
   \<and> (vehicleOf vehicleId s = Some v \<and> meterOf meterId s = Some m
      \<longrightarrow> (\<exists>s'. associateVehicleWithMeter vehicleId meterId s = Inr (s', True)
              \<and> vehicleOf vehicleId s' = Some (v\<lparr>vehicle_meterId := Some meterId\<rparr>)
              \<and> meter_tbl s' = meter_tbl s
              \<and> meterReading_tbl s' = meterReading_tbl s
              \<and> vehicleReading_tbl s' = vehicleReading_tbl s
              \<and> meterCurrentState_tbl s' = meterCurrentState_tbl s
              \<and> vehicleCurrentState_tbl s' = vehicleCurrentState_tbl s))"
proof (intro conjI impI)
  assume "vehicleOf vehicleId s = None"
  then show "isl (associateVehicleWithMeter vehicleId meterId s)"
    by (simp add: associate_unknown_vehicle)
next
  assume "vehicleOf vehicleId s = Some v \<and> meterOf meterId s = None"
  then show "isl (associateVehicleWithMeter vehicleId meterId s)"
    using associate_known_vehicle [of vehicleId s v meterId] by auto
next
  assume both: "vehicleOf vehicleId s = Some v \<and> meterOf meterId s = Some m"
  then obtain tbl where
    tbl: "find (\<lambda>v. vehicle_vehicleId v = vehicleId) tbl
            = Some (v\<lparr>vehicle_meterId := Some meterId\<rparr>)"
      "associateVehicleWithMeter vehicleId meterId s = Inr (s\<lparr>vehicle_tbl := tbl\<rparr>, True)"
    using associate_known_vehicle [of vehicleId s v meterId] by auto
  show "\<exists>s'. associateVehicleWithMeter vehicleId meterId s = Inr (s', True)
              \<and> vehicleOf vehicleId s' = Some (v\<lparr>vehicle_meterId := Some meterId\<rparr>)
              \<and> meter_tbl s' = meter_tbl s
              \<and> meterReading_tbl s' = meterReading_tbl s
              \<and> vehicleReading_tbl s' = vehicleReading_tbl s
              \<and> meterCurrentState_tbl s' = meterCurrentState_tbl s
              \<and> vehicleCurrentState_tbl s' = vehicleCurrentState_tbl s"
    by (rule exI [of _ "s\<lparr>vehicle_tbl := tbl\<rparr>"])
      (simp add: tbl vehicleOf_def findUnique_def)
qed

lemma vehicleAndMeterDb_rows:
  "vehicle_tbl vehicleAndMeterDb = [unlinkedVehicle]"
  "meter_tbl vehicleAndMeterDb =
     [\<lparr>meter_meterId = ''METER-001'', meter_name = ''Meter METER-001'',
       meter_location = None\<rparr>]"
  "vehicle_tbl vehicleOnlyDb = [unlinkedVehicle]"
  "meter_tbl vehicleOnlyDb = []"
  by (simp_all add: vehicleAndMeterDb_def vehicleOnlyDb_def unlinkedVehicle_def
      ingestVehicleTelemetry_def ingestMeterTelemetry_def emptyDb_def registerVehicle_def
      registerMeter_def Let_def)

lemma vehicleAndMeterDb_lookups:
  "vehicleOf ''VEH-404'' vehicleAndMeterDb = None"
  "vehicleOf ''VEH-001'' vehicleAndMeterDb = Some unlinkedVehicle"
  "meterOf ''METER-999'' vehicleAndMeterDb = None"
  "meterOf ''METER-001'' vehicleAndMeterDb =
     Some \<lparr>meter_meterId = ''METER-001'', meter_name = ''Meter METER-001'',
           meter_location = None\<rparr>"
  "vehicleOf ''VEH-001'' vehicleOnlyDb = Some unlinkedVehicle"
  "meterOf ''METER-999'' vehicleOnlyDb = None"
  by (simp_all add: vehicleOf_def meterOf_def findUnique_def vehicleAndMeterDb_rows)
    (simp_all add: unlinkedVehicle_def)

text \<open>On the store with one unlinked vehicle and one meter: an unknown vehicle is
  refused, a meter id that no meter carries is refused, and the known vehicle is linked
  to the known meter.\<close>

theorem associate_needs_vehicle_and_meter_witness:
  "vehicleOf ''VEH-404'' vehicleAndMeterDb = None
   \<and> isl (associateVehicleWithMeter ''VEH-404'' ''METER-001'' vehicleAndMeterDb)
   \<and> vehicleOf ''VEH-001'' vehicleAndMeterDb = Some unlinkedVehicle
   \<and> meterOf ''METER-999'' vehicleAndMeterDb = None
   \<and> isl (associateVehicleWithMeter ''VEH-001'' ''METER-999'' vehicleAndMeterDb)
   \<and> meterOf ''METER-001'' vehicleAndMeterDb =
       Some \<lparr>meter_meterId = ''METER-001'', meter_name = ''Meter METER-001'',
             meter_location = None\<rparr>
   \<and> (\<exists>s'. associateVehicleWithMeter ''VEH-001'' ''METER-001'' vehicleAndMeterDb
               = Inr (s', True)
         \<and> vehicleOf ''VEH-001'' s'
             = Some (unlinkedVehicle\<lparr>vehicle_meterId := Some ''METER-001''\<rparr>)
         \<and> meter_tbl s' = meter_tbl vehicleAndMeterDb)"
proof -
  from associate_needs_vehicle_and_meter [where vehicleId = "''VEH-404''"
      and s = vehicleAndMeterDb and meterId = "''METER-001''"]
    vehicleAndMeterDb_lookups(1)
  have refused: "isl (associateVehicleWithMeter ''VEH-404'' ''METER-001'' vehicleAndMeterDb)"
    by blast
  from associate_needs_vehicle_and_meter [where vehicleId = "''VEH-001''"
      and s = vehicleAndMeterDb and meterId = "''METER-999''" and v = unlinkedVehicle]
    vehicleAndMeterDb_lookups(2,3)
  have dangling: "isl (associateVehicleWithMeter ''VEH-001'' ''METER-999'' vehicleAndMeterDb)"
    by blast
  from associate_needs_vehicle_and_meter [where vehicleId = "''VEH-001''"
      and s = vehicleAndMeterDb and meterId = "''METER-001''" and v = unlinkedVehicle
      and m = "\<lparr>meter_meterId = ''METER-001'', meter_name = ''Meter METER-001'',
             meter_location = None\<rparr>"]
    vehicleAndMeterDb_lookups(2,4)
  have linked: "\<exists>s'. associateVehicleWithMeter ''VEH-001'' ''METER-001'' vehicleAndMeterDb
               = Inr (s', True)
         \<and> vehicleOf ''VEH-001'' s'
             = Some (unlinkedVehicle\<lparr>vehicle_meterId := Some ''METER-001''\<rparr>)
         \<and> meter_tbl s' = meter_tbl vehicleAndMeterDb"
    by blast
  from vehicleAndMeterDb_lookups(1) refused vehicleAndMeterDb_lookups(2)
    vehicleAndMeterDb_lookups(3) dangling vehicleAndMeterDb_lookups(4) linked
  show ?thesis
    by blast
qed

text \<open>Success for a meter id that does not exist fails on the store with one vehicle
  and no meter: the vehicle is known, no meter carries \<open>METER-999\<close>, and the call
  ends in the store's foreign-key error.\<close>

theorem associate_dangling_meter_counterexample:
  "vehicleOf ''VEH-001'' vehicleOnlyDb = Some unlinkedVehicle
   \<and> meterOf ''METER-999'' vehicleOnlyDb = None
   \<and> associateVehicleWithMeter ''VEH-001'' ''METER-999'' vehicleOnlyDb
       = Inl ForeignKeyConstraintFailed"
proof -
  have "associateVehicleWithMeter ''VEH-001'' ''METER-999'' vehicleOnlyDb
       = Inl ForeignKeyConstraintFailed"
    using associate_known_vehicle [OF vehicleAndMeterDb_lookups(5), of "''METER-999''"]
    by (auto simp: vehicleAndMeterDb_lookups(6))
  with vehicleAndMeterDb_lookups(5,6) show ?thesis
    by simp
qed

section \<open>Ingestion: the batch reduction\<close>

lemma latestByMeter_fold:
  "latestByMeter readings = fold (keepLatest mt_meterId mt_timestamp) readings []"
  unfolding latestByMeter_def keepLatest_def ..

lemma latestByVehicle_fold:
  "latestByVehicle readings = fold (keepLatest vt_vehicleId vt_timestamp) readings []"
  unfolding latestByVehicle_def keepLatest_def ..

lemma map_of_keepLatest:
  "map_of (keepLatest key ts r m) d =
     (if key r = d
      then (case map_of m d of
              None \<Rightarrow> Some r
            | Some e \<Rightarrow> if ts r > ts e then Some r else Some e)
      else map_of m d)"
  by (auto simp: keepLatest_def update_conv' split: option.splits)

lemma distinct_keepLatest:
  "distinct (map fst m) \<Longrightarrow> distinct (map fst (keepLatest key ts r m))"
  by (simp add: keepLatest_def distinct_update split: option.splits)

lemma distinct_fold_keepLatest:
  "distinct (map fst m) \<Longrightarrow> distinct (map fst (fold (keepLatest key ts) rs m))"
  by (induction rs arbitrary: m) (simp_all add: distinct_keepLatest)

lemma winnerFirstTie_snoc:
  "winnerFirstTie ts (ds @ [r]) =
     (case winnerFirstTie ts ds of
        None \<Rightarrow> Some r
      | Some e \<Rightarrow> if ts r > ts e then Some r else Some e)"
proof (cases "ds = []")
  case True
  then show ?thesis by (simp add: winnerFirstTie_def)
next
  case False
  define m where "m = Max (set (map ts ds))"
  have fin: "finite (set (map ts ds))" "set (map ts ds) \<noteq> {}"
    using False by simp_all
  have m_in: "m \<in> set (map ts ds)"
    unfolding m_def using Max_in [OF fin] .
  have m_ge: "ts x \<le> m" if "x \<in> set ds" for x
    unfolding m_def using fin that by (simp add: Max_ge)
  have ne: "filter (\<lambda>x. ts x = m) ds \<noteq> []"
    using m_in by (auto simp: filter_empty_conv)
  define e where "e = hd (filter (\<lambda>x. ts x = m) ds)"
  have e_in: "e \<in> set (filter (\<lambda>x. ts x = m) ds)"
    unfolding e_def using ne by (rule hd_in_set)
  then have ts_e: "ts e = m" by simp
  have w: "winnerFirstTie ts ds = Some e"
    using False by (simp add: winnerFirstTie_def e_def m_def)
  have newmax: "Max (set (map ts (ds @ [r]))) = max (ts r) m"
    using fin by (simp add: m_def)
  have wf: "winnerFirstTie ts (ds @ [r])
      = Some (hd (filter (\<lambda>x. ts x = max (ts r) m) (ds @ [r])))"
    unfolding winnerFirstTie_def newmax by simp
  show ?thesis
  proof (cases "ts r > m")
    case True
    then have "filter (\<lambda>x. ts x = max (ts r) m) ds = []"
      using m_ge by (fastforce simp: filter_empty_conv max_def)
    then have "winnerFirstTie ts (ds @ [r]) = Some r"
      using True by (simp add: wf)
    then show ?thesis using w ts_e True by simp
  next
    case notgt: False
    then have mx: "max (ts r) m = m" by simp
    have "hd (filter (\<lambda>x. ts x = m) (ds @ [r])) = e"
      using ne by (simp add: e_def)
    then have "winnerFirstTie ts (ds @ [r]) = Some e"
      by (simp add: wf mx)
    then show ?thesis using w ts_e notgt by simp
  qed
qed

lemma map_of_fold_keepLatest:
  "map_of (fold (keepLatest key ts) rs []) d = winnerFirstTie ts (filter (\<lambda>r. key r = d) rs)"
proof (induction rs rule: rev_induct)
  case Nil
  then show ?case by (simp add: winnerFirstTie_def)
next
  case (snoc r rs)
  show ?case
  proof (cases "key r = d")
    case True
    then show ?thesis
      using snoc.IH by (simp add: map_of_keepLatest winnerFirstTie_snoc)
  next
    case False
    then show ?thesis
      using snoc.IH by (simp add: map_of_keepLatest)
  qed
qed

lemma winnerFirstTie_Some:
  assumes "winnerFirstTie ts ds = Some w"
  shows "w \<in> set ds \<and> ts w = Max (set (map ts ds))"
proof -
  have ne: "ds \<noteq> []" using assms by (auto simp: winnerFirstTie_def)
  have "Max (set (map ts ds)) \<in> set (map ts ds)"
    using ne by (intro Max_in) simp_all
  then have "filter (\<lambda>r. ts r = Max (set (map ts ds))) ds \<noteq> []"
    by (auto simp: filter_empty_conv)
  then have "hd (filter (\<lambda>r. ts r = Max (set (map ts ds))) ds)
      \<in> set (filter (\<lambda>r. ts r = Max (set (map ts ds))) ds)"
    by (rule hd_in_set)
  moreover have "w = hd (filter (\<lambda>r. ts r = Max (set (map ts ds))) ds)"
    using assms ne by (simp add: winnerFirstTie_def)
  ultimately show ?thesis by simp
qed

lemma winnerFirstTie_None: "winnerFirstTie ts ds = None \<longleftrightarrow> ds = []"
  by (simp add: winnerFirstTie_def)

lemma meter_upsert_fold:
  assumes "distinct (map fst al)"
  shows "findUnique (\<lambda>c. mcs_meterId c = d)
           (fold (\<lambda>(meterId, latest). upsertMeterCurrentState meterId latest) al tbl) =
         (case map_of al d of
            None \<Rightarrow> findUnique (\<lambda>c. mcs_meterId c = d) tbl
          | Some w \<Rightarrow> Some \<lparr>mcs_meterId = d, mcs_kwhConsumedAc = mt_kwhConsumedAc w,
                            mcs_voltage = mt_voltage w, mcs_lastTimestamp = mt_timestamp w\<rparr>)"
  using assms
proof (induction al arbitrary: tbl)
  case Nil
  then show ?case by simp
next
  case (Cons kw al)
  obtain k w where kw: "kw = (k, w)" by (cases kw)
  have dist: "distinct (map fst al)" and notin: "k \<notin> fst ` set al"
    using Cons.prems by (simp_all add: kw)
  show ?case
  proof (cases "k = d")
    case True
    have "map_of al d = None"
      using notin True by (simp add: map_of_eq_None_iff)
    then show ?thesis
      using Cons.IH [OF dist] True by (simp add: kw meter_upsert_same)
  next
    case False
    then show ?thesis
      using Cons.IH [OF dist] by (simp add: kw meter_upsert_other split: option.splits)
  qed
qed

lemma meterStateOf_batch:
  "meterStateOf d (fst (batchIngestMeterTelemetry readings s)) =
     (case winnerFirstTie mt_timestamp (meterReadingsOf d readings) of
        None \<Rightarrow> meterStateOf d s
      | Some w \<Rightarrow> Some \<lparr>mcs_meterId = d, mcs_kwhConsumedAc = mt_kwhConsumedAc w,
                        mcs_voltage = mt_voltage w, mcs_lastTimestamp = mt_timestamp w\<rparr>)"
proof -
  have "distinct (map fst (latestByMeter readings))"
    unfolding latestByMeter_fold by (rule distinct_fold_keepLatest) simp
  then have "meterStateOf d (fst (batchIngestMeterTelemetry readings s)) =
     (case map_of (latestByMeter readings) d of
        None \<Rightarrow> meterStateOf d s
      | Some w \<Rightarrow> Some \<lparr>mcs_meterId = d, mcs_kwhConsumedAc = mt_kwhConsumedAc w,
                        mcs_voltage = mt_voltage w, mcs_lastTimestamp = mt_timestamp w\<rparr>)"
    unfolding meterStateOf_def
    by (simp add: batchIngestMeterTelemetry_def Let_def meter_upsert_fold)
  then show ?thesis
    by (simp add: latestByMeter_fold map_of_fold_keepLatest meterReadingsOf_def)
qed

lemma vehicle_upsert_fold:
  assumes "distinct (map fst al)"
  shows "findUnique (\<lambda>c. vcs_vehicleId c = d)
           (fold (\<lambda>(vehicleId, latest). upsertVehicleCurrentState vehicleId latest) al tbl) =
         (case map_of al d of
            None \<Rightarrow> findUnique (\<lambda>c. vcs_vehicleId c = d) tbl
          | Some w \<Rightarrow> Some \<lparr>vcs_vehicleId = d, vcs_soc = vt_soc w,
                            vcs_kwhDeliveredDc = vt_kwhDeliveredDc w,
                            vcs_batteryTemp = vt_batteryTemp w,
                            vcs_lastTimestamp = vt_timestamp w\<rparr>)"
  using assms
proof (induction al arbitrary: tbl)
  case Nil
  then show ?case by simp
next
  case (Cons kw al)
  obtain k w where kw: "kw = (k, w)" by (cases kw)
  have dist: "distinct (map fst al)" and notin: "k \<notin> fst ` set al"
    using Cons.prems by (simp_all add: kw)
  show ?case
  proof (cases "k = d")
    case True
    have "map_of al d = None"
      using notin True by (simp add: map_of_eq_None_iff)
    then show ?thesis
      using Cons.IH [OF dist] True by (simp add: kw vehicle_upsert_same)
  next
    case False
    then show ?thesis
      using Cons.IH [OF dist] by (simp add: kw vehicle_upsert_other split: option.splits)
  qed
qed

lemma vehicleStateOf_batch:
  "vehicleStateOf d (fst (batchIngestVehicleTelemetry readings s)) =
     (case winnerFirstTie vt_timestamp (vehicleReadingsOf d readings) of
        None \<Rightarrow> vehicleStateOf d s
      | Some w \<Rightarrow> Some \<lparr>vcs_vehicleId = d, vcs_soc = vt_soc w,
                        vcs_kwhDeliveredDc = vt_kwhDeliveredDc w,
                        vcs_batteryTemp = vt_batteryTemp w,
                        vcs_lastTimestamp = vt_timestamp w\<rparr>)"
proof -
  have "distinct (map fst (latestByVehicle readings))"
    unfolding latestByVehicle_fold by (rule distinct_fold_keepLatest) simp
  then have "vehicleStateOf d (fst (batchIngestVehicleTelemetry readings s)) =
     (case map_of (latestByVehicle readings) d of
        None \<Rightarrow> vehicleStateOf d s
      | Some w \<Rightarrow> Some \<lparr>vcs_vehicleId = d, vcs_soc = vt_soc w,
                        vcs_kwhDeliveredDc = vt_kwhDeliveredDc w,
                        vcs_batteryTemp = vt_batteryTemp w,
                        vcs_lastTimestamp = vt_timestamp w\<rparr>)"
    unfolding vehicleStateOf_def
    by (simp add: batchIngestVehicleTelemetry_def Let_def vehicle_upsert_fold)
  then show ?thesis
    by (simp add: latestByVehicle_fold map_of_fold_keepLatest vehicleReadingsOf_def)
qed

lemma winnerFirstTie_ex: "ds \<noteq> [] \<Longrightarrow> \<exists>w. winnerFirstTie ts ds = Some w"
  by (simp add: winnerFirstTie_def)

lemma mset_singleton_list: "mset xs = {#x#} \<Longrightarrow> xs = [x]"
  by (cases xs) auto

lemma winnerFirstTie_perm:
  assumes "mset ds' = mset ds" and "singleMax ts ds"
  shows "winnerFirstTie ts ds' = winnerFirstTie ts ds"
proof (cases "ds = []")
  case True
  then show ?thesis using assms(1) by (simp add: winnerFirstTie_def)
next
  case False
  then have ne': "ds' \<noteq> []" using assms(1) by auto
  have sets: "set ds' = set ds" using assms(1) by (rule mset_eq_setD)
  define m where "m = Max (set (map ts ds))"
  have m': "Max (set (map ts ds')) = m" by (simp add: m_def sets)
  have "m \<in> set (map ts ds)"
    unfolding m_def using False by (intro Max_in) simp_all
  then have ne: "filter (\<lambda>r. ts r = m) ds \<noteq> []"
    by (auto simp: filter_empty_conv)
  have "length (filter (\<lambda>r. ts r = m) ds) \<le> 1"
    using assms(2) by (simp add: singleMax_def m_def)
  then obtain x where x: "filter (\<lambda>r. ts r = m) ds = [x]"
    using ne by (cases "filter (\<lambda>r. ts r = m) ds") auto
  have "mset (filter (\<lambda>r. ts r = m) ds') = mset (filter (\<lambda>r. ts r = m) ds)"
    using assms(1) by simp
  then have "mset (filter (\<lambda>r. ts r = m) ds') = {#x#}"
    by (simp add: x)
  then have x': "filter (\<lambda>r. ts r = m) ds' = [x]"
    by (rule mset_singleton_list)
  have "winnerFirstTie ts ds' = Some x"
    unfolding winnerFirstTie_def m' x' using ne' by simp
  moreover have "winnerFirstTie ts ds = Some x"
    unfolding winnerFirstTie_def m_def [symmetric] x using False by simp
  ultimately show ?thesis by simp
qed

lemma winnerFirstTie_ts_perm:
  assumes "mset ds' = mset ds"
  shows "map_option ts (winnerFirstTie ts ds') = map_option ts (winnerFirstTie ts ds)"
proof (cases "ds = []")
  case True
  then show ?thesis using assms by (simp add: winnerFirstTie_def)
next
  case False
  then have ne': "ds' \<noteq> []" using assms by auto
  have sets: "set ds' = set ds" using assms by (rule mset_eq_setD)
  obtain w where w: "winnerFirstTie ts ds = Some w"
    using winnerFirstTie_ex [OF False] by blast
  obtain w' where w': "winnerFirstTie ts ds' = Some w'"
    using winnerFirstTie_ex [OF ne'] by blast
  have "ts w = Max (set (map ts ds))" "ts w' = Max (set (map ts ds'))"
    using winnerFirstTie_Some [OF w] winnerFirstTie_Some [OF w'] by simp_all
  then show ?thesis
    by (simp add: w w' sets)
qed

lemma meter_examples:
  "winnerFirstTie mt_timestamp (meterReadingsOf ''METER-001'' [meterTieA, meterTieB])
     = Some meterTieA"
  "winnerLastTie mt_timestamp (meterReadingsOf ''METER-001'' [meterTieA, meterTieB])
     = Some meterTieB"
  "winnerFirstTie mt_timestamp (meterReadingsOf ''METER-001'' [meterTieB, meterTieA])
     = Some meterTieB"
  "winnerFirstTie mt_timestamp (meterReadingsOf ''METER-001'' [meterTieA, meterLate])
     = Some meterLate"
  "winnerFirstTie mt_timestamp (meterReadingsOf ''METER-001'' [meterLate, meterTieA])
     = Some meterLate"
  "singleMax mt_timestamp (meterReadingsOf ''METER-001'' [meterTieA, meterLate])"
  "\<not> singleMax mt_timestamp (meterReadingsOf ''METER-001'' [meterTieA, meterTieB])"
  "mset (meterReadingsOf ''METER-001'' [meterLate, meterTieA])
     = mset (meterReadingsOf ''METER-001'' [meterTieA, meterLate])"
  "mset (meterReadingsOf ''METER-001'' [meterTieB, meterTieA])
     = mset (meterReadingsOf ''METER-001'' [meterTieA, meterTieB])"
  by (simp_all add: winnerFirstTie_def winnerLastTie_def singleMax_def meterReadingsOf_def
      meterTieA_def meterTieB_def meterLate_def)

lemma vehicle_examples:
  "winnerFirstTie vt_timestamp (vehicleReadingsOf ''VEH-001'' [vehicleTieA, vehicleTieB])
     = Some vehicleTieA"
  "singleMax vt_timestamp (vehicleReadingsOf ''VEH-001'' [vehicleTieA, vehicleLate])"
  "mset (vehicleReadingsOf ''VEH-001'' [vehicleLate, vehicleTieA])
     = mset (vehicleReadingsOf ''VEH-001'' [vehicleTieA, vehicleLate])"
  by (simp_all add: winnerFirstTie_def singleMax_def vehicleReadingsOf_def
      vehicleTieA_def vehicleTieB_def vehicleLate_def)

text \<open>
  \<^bold>\<open>Claim C1\<close> (as amended).  For every batch of readings of one kind, after
  \<open>ingestBatch\<close> the current-state row of each device id occurring in the batch equals
  the row produced by a single \<open>ingest\<close> of that device's winning reading, where the
  winner is the reading with the maximum observation timestamp among that device's
  readings and ties are broken by the \<^emph>\<open>first\<close>-occurring position in the input
  sequence.  For a fixed device the resulting row is the same for every permutation of
  that device's readings within the batch provided a single one of them carries the
  maximum timestamp; the row's \<open>lastTimestamp\<close> is the same for every permutation.
\<close>

theorem batch_state_is_winner_ingest:
  "(d \<in> set (map mt_meterId readings) \<longrightarrow>
      (\<exists>w. winnerFirstTie mt_timestamp (meterReadingsOf d readings) = Some w
         \<and> meterStateOf d (fst (batchIngestMeterTelemetry readings s))
             = meterStateOf d (fst (ingestMeterTelemetry w s))))
   \<and> (mset (meterReadingsOf d readings') = mset (meterReadingsOf d readings)
        \<and> singleMax mt_timestamp (meterReadingsOf d readings) \<longrightarrow>
      meterStateOf d (fst (batchIngestMeterTelemetry readings' s))
        = meterStateOf d (fst (batchIngestMeterTelemetry readings s)))
   \<and> (mset (meterReadingsOf d readings') = mset (meterReadingsOf d readings) \<longrightarrow>
      map_option mcs_lastTimestamp (meterStateOf d (fst (batchIngestMeterTelemetry readings' s)))
        = map_option mcs_lastTimestamp
            (meterStateOf d (fst (batchIngestMeterTelemetry readings s))))
   \<and> (vd \<in> set (map vt_vehicleId vreadings) \<longrightarrow>
      (\<exists>w. winnerFirstTie vt_timestamp (vehicleReadingsOf vd vreadings) = Some w
         \<and> vehicleStateOf vd (fst (batchIngestVehicleTelemetry vreadings s))
             = vehicleStateOf vd (fst (ingestVehicleTelemetry w s))))
   \<and> (mset (vehicleReadingsOf vd vreadings') = mset (vehicleReadingsOf vd vreadings)
        \<and> singleMax vt_timestamp (vehicleReadingsOf vd vreadings) \<longrightarrow>
      vehicleStateOf vd (fst (batchIngestVehicleTelemetry vreadings' s))
        = vehicleStateOf vd (fst (batchIngestVehicleTelemetry vreadings s)))
   \<and> (mset (vehicleReadingsOf vd vreadings') = mset (vehicleReadingsOf vd vreadings) \<longrightarrow>
      map_option vcs_lastTimestamp
          (vehicleStateOf vd (fst (batchIngestVehicleTelemetry vreadings' s)))
        = map_option vcs_lastTimestamp
            (vehicleStateOf vd (fst (batchIngestVehicleTelemetry vreadings s))))"
proof -
  have m1: "\<exists>w. winnerFirstTie mt_timestamp (meterReadingsOf d readings) = Some w
         \<and> meterStateOf d (fst (batchIngestMeterTelemetry readings s))
             = meterStateOf d (fst (ingestMeterTelemetry w s))"
    if "d \<in> set (map mt_meterId readings)"
  proof -
    have "meterReadingsOf d readings \<noteq> []"
      using that by (auto simp: meterReadingsOf_def filter_empty_conv)
    then obtain w where w: "winnerFirstTie mt_timestamp (meterReadingsOf d readings) = Some w"
      using winnerFirstTie_ex by blast
    have "w \<in> set (meterReadingsOf d readings)"
      using winnerFirstTie_Some [OF w] by simp
    then have key: "mt_meterId w = d"
      by (simp add: meterReadingsOf_def)
    have "meterStateOf d (fst (batchIngestMeterTelemetry readings s))
        = meterStateOf d (fst (ingestMeterTelemetry w s))"
      by (simp add: meterStateOf_batch w meterStateOf_ingest key)
    with w show ?thesis by blast
  qed
  have m2: "meterStateOf d (fst (batchIngestMeterTelemetry readings' s))
        = meterStateOf d (fst (batchIngestMeterTelemetry readings s))"
    if "mset (meterReadingsOf d readings') = mset (meterReadingsOf d readings)"
      and "singleMax mt_timestamp (meterReadingsOf d readings)"
    using winnerFirstTie_perm [OF that] by (simp add: meterStateOf_batch)
  have m3: "map_option mcs_lastTimestamp
          (meterStateOf d (fst (batchIngestMeterTelemetry readings' s)))
        = map_option mcs_lastTimestamp
            (meterStateOf d (fst (batchIngestMeterTelemetry readings s)))"
    if "mset (meterReadingsOf d readings') = mset (meterReadingsOf d readings)"
    using winnerFirstTie_ts_perm [OF that, of mt_timestamp]
    by (cases "winnerFirstTie mt_timestamp (meterReadingsOf d readings')";
        cases "winnerFirstTie mt_timestamp (meterReadingsOf d readings)")
      (simp_all add: meterStateOf_batch)
  have v1: "\<exists>w. winnerFirstTie vt_timestamp (vehicleReadingsOf vd vreadings) = Some w
         \<and> vehicleStateOf vd (fst (batchIngestVehicleTelemetry vreadings s))
             = vehicleStateOf vd (fst (ingestVehicleTelemetry w s))"
    if "vd \<in> set (map vt_vehicleId vreadings)"
  proof -
    have "vehicleReadingsOf vd vreadings \<noteq> []"
      using that by (auto simp: vehicleReadingsOf_def filter_empty_conv)
    then obtain w where
      w: "winnerFirstTie vt_timestamp (vehicleReadingsOf vd vreadings) = Some w"
      using winnerFirstTie_ex by blast
    have "w \<in> set (vehicleReadingsOf vd vreadings)"
      using winnerFirstTie_Some [OF w] by simp
    then have key: "vt_vehicleId w = vd"
      by (simp add: vehicleReadingsOf_def)
    have "vehicleStateOf vd (fst (batchIngestVehicleTelemetry vreadings s))
        = vehicleStateOf vd (fst (ingestVehicleTelemetry w s))"
      by (simp add: vehicleStateOf_batch w vehicleStateOf_ingest key)
    with w show ?thesis by blast
  qed
  have v2: "vehicleStateOf vd (fst (batchIngestVehicleTelemetry vreadings' s))
        = vehicleStateOf vd (fst (batchIngestVehicleTelemetry vreadings s))"
    if "mset (vehicleReadingsOf vd vreadings') = mset (vehicleReadingsOf vd vreadings)"
      and "singleMax vt_timestamp (vehicleReadingsOf vd vreadings)"
    using winnerFirstTie_perm [OF that] by (simp add: vehicleStateOf_batch)
  have v3: "map_option vcs_lastTimestamp
          (vehicleStateOf vd (fst (batchIngestVehicleTelemetry vreadings' s)))
        = map_option vcs_lastTimestamp
            (vehicleStateOf vd (fst (batchIngestVehicleTelemetry vreadings s)))"
    if "mset (vehicleReadingsOf vd vreadings') = mset (vehicleReadingsOf vd vreadings)"
    using winnerFirstTie_ts_perm [OF that, of vt_timestamp]
    by (cases "winnerFirstTie vt_timestamp (vehicleReadingsOf vd vreadings')";
        cases "winnerFirstTie vt_timestamp (vehicleReadingsOf vd vreadings)")
      (simp_all add: vehicleStateOf_batch)
  from m1 m2 m3 v1 v2 v3 show ?thesis
    by blast
qed

text \<open>A batch of two readings of one meter with equal timestamps reduces to the first;
  a batch with a single latest reading gives the same row in either order.  The same
  for vehicles.\<close>

theorem batch_state_is_winner_ingest_witness:
  "''METER-001'' \<in> set (map mt_meterId [meterTieA, meterTieB])
   \<and> winnerFirstTie mt_timestamp (meterReadingsOf ''METER-001'' [meterTieA, meterTieB])
       = Some meterTieA
   \<and> meterStateOf ''METER-001'' (fst (batchIngestMeterTelemetry [meterTieA, meterTieB] emptyDb))
       = meterStateOf ''METER-001'' (fst (ingestMeterTelemetry meterTieA emptyDb))
   \<and> mset (meterReadingsOf ''METER-001'' [meterLate, meterTieA])
       = mset (meterReadingsOf ''METER-001'' [meterTieA, meterLate])
   \<and> singleMax mt_timestamp (meterReadingsOf ''METER-001'' [meterTieA, meterLate])
   \<and> meterStateOf ''METER-001'' (fst (batchIngestMeterTelemetry [meterLate, meterTieA] emptyDb))
       = meterStateOf ''METER-001'' (fst (batchIngestMeterTelemetry [meterTieA, meterLate] emptyDb))
   \<and> map_option mcs_lastTimestamp
         (meterStateOf ''METER-001'' (fst (batchIngestMeterTelemetry [meterLate, meterTieA] emptyDb)))
       = map_option mcs_lastTimestamp
           (meterStateOf ''METER-001''
              (fst (batchIngestMeterTelemetry [meterTieA, meterLate] emptyDb)))
   \<and> ''VEH-001'' \<in> set (map vt_vehicleId [vehicleTieA, vehicleTieB])
   \<and> winnerFirstTie vt_timestamp (vehicleReadingsOf ''VEH-001'' [vehicleTieA, vehicleTieB])
       = Some vehicleTieA
   \<and> vehicleStateOf ''VEH-001''
         (fst (batchIngestVehicleTelemetry [vehicleTieA, vehicleTieB] emptyDb))
       = vehicleStateOf ''VEH-001'' (fst (ingestVehicleTelemetry vehicleTieA emptyDb))
   \<and> mset (vehicleReadingsOf ''VEH-001'' [vehicleLate, vehicleTieA])
       = mset (vehicleReadingsOf ''VEH-001'' [vehicleTieA, vehicleLate])
   \<and> singleMax vt_timestamp (vehicleReadingsOf ''VEH-001'' [vehicleTieA, vehicleLate])
   \<and> vehicleStateOf ''VEH-001''
         (fst (batchIngestVehicleTelemetry [vehicleLate, vehicleTieA] emptyDb))
       = vehicleStateOf ''VEH-001''
           (fst (batchIngestVehicleTelemetry [vehicleTieA, vehicleLate] emptyDb))
   \<and> map_option vcs_lastTimestamp
         (vehicleStateOf ''VEH-001''
            (fst (batchIngestVehicleTelemetry [vehicleLate, vehicleTieA] emptyDb)))
       = map_option vcs_lastTimestamp
           (vehicleStateOf ''VEH-001''
              (fst (batchIngestVehicleTelemetry [vehicleTieA, vehicleLate] emptyDb)))"
proof -
  have inM: "''METER-001'' \<in> set (map mt_meterId [meterTieA, meterTieB])"
    by (simp add: meterTieA_def)
  have inV: "''VEH-001'' \<in> set (map vt_vehicleId [vehicleTieA, vehicleTieB])"
    by (simp add: vehicleTieA_def)
  note tie = batch_state_is_winner_ingest [where d = "''METER-001''"
      and readings = "[meterTieA, meterTieB]" and s = emptyDb and vd = "''VEH-001''"
      and vreadings = "[vehicleTieA, vehicleTieB]"]
  note perm = batch_state_is_winner_ingest [where d = "''METER-001''"
      and readings = "[meterTieA, meterLate]" and readings' = "[meterLate, meterTieA]"
      and s = emptyDb and vd = "''VEH-001''"
      and vreadings = "[vehicleTieA, vehicleLate]" and vreadings' = "[vehicleLate, vehicleTieA]"]
  have m1: "meterStateOf ''METER-001''
        (fst (batchIngestMeterTelemetry [meterTieA, meterTieB] emptyDb))
      = meterStateOf ''METER-001'' (fst (ingestMeterTelemetry meterTieA emptyDb))"
    using tie inM meter_examples(1) by auto
  have v1: "vehicleStateOf ''VEH-001''
        (fst (batchIngestVehicleTelemetry [vehicleTieA, vehicleTieB] emptyDb))
      = vehicleStateOf ''VEH-001'' (fst (ingestVehicleTelemetry vehicleTieA emptyDb))"
    using tie inV vehicle_examples(1) by auto
  have m2: "meterStateOf ''METER-001''
        (fst (batchIngestMeterTelemetry [meterLate, meterTieA] emptyDb))
      = meterStateOf ''METER-001'' (fst (batchIngestMeterTelemetry [meterTieA, meterLate] emptyDb))"
    using perm meter_examples(6,8) by blast
  have m3: "map_option mcs_lastTimestamp
         (meterStateOf ''METER-001'' (fst (batchIngestMeterTelemetry [meterLate, meterTieA] emptyDb)))
       = map_option mcs_lastTimestamp
           (meterStateOf ''METER-001''
              (fst (batchIngestMeterTelemetry [meterTieA, meterLate] emptyDb)))"
    using perm meter_examples(8) by blast
  have v2: "vehicleStateOf ''VEH-001''
         (fst (batchIngestVehicleTelemetry [vehicleLate, vehicleTieA] emptyDb))
       = vehicleStateOf ''VEH-001''
           (fst (batchIngestVehicleTelemetry [vehicleTieA, vehicleLate] emptyDb))"
    using perm vehicle_examples(2,3) by blast
  have v3: "map_option vcs_lastTimestamp
         (vehicleStateOf ''VEH-001''
            (fst (batchIngestVehicleTelemetry [vehicleLate, vehicleTieA] emptyDb)))
       = map_option vcs_lastTimestamp
           (vehicleStateOf ''VEH-001''
              (fst (batchIngestVehicleTelemetry [vehicleTieA, vehicleLate] emptyDb)))"
    using perm vehicle_examples(3) by blast
  from inM meter_examples(1) m1 meter_examples(8) meter_examples(6) m2 m3
    inV vehicle_examples(1) v1 vehicle_examples(3) vehicle_examples(2) v2 v3
  show ?thesis by blast
qed

text \<open>The claim as first stated (ties broken by the last-occurring position, and the
  row invariant under every permutation) fails on a batch of two readings of one meter
  with equal timestamps and different measurements: the reduction compares with a
  strict \<open>>\<close>, so the first of them is kept, and swapping them changes the row.\<close>

theorem batch_tie_counterexample:
  "winnerLastTie mt_timestamp (meterReadingsOf ''METER-001'' [meterTieA, meterTieB])
     = Some meterTieB
   \<and> meterStateOf ''METER-001'' (fst (batchIngestMeterTelemetry [meterTieA, meterTieB] emptyDb))
     \<noteq> meterStateOf ''METER-001'' (fst (ingestMeterTelemetry meterTieB emptyDb))
   \<and> mset (meterReadingsOf ''METER-001'' [meterTieB, meterTieA])
     = mset (meterReadingsOf ''METER-001'' [meterTieA, meterTieB])
   \<and> meterStateOf ''METER-001'' (fst (batchIngestMeterTelemetry [meterTieB, meterTieA] emptyDb))
     \<noteq> meterStateOf ''METER-001'' (fst (batchIngestMeterTelemetry [meterTieA, meterTieB] emptyDb))"
proof -
  have a: "meterStateOf ''METER-001'' (fst (batchIngestMeterTelemetry [meterTieA, meterTieB] emptyDb))
      = Some \<lparr>mcs_meterId = ''METER-001'', mcs_kwhConsumedAc = 10, mcs_voltage = 230,
              mcs_lastTimestamp = 1000\<rparr>"
    by (simp add: meterStateOf_batch meter_examples) (simp add: meterTieA_def)
  have b: "meterStateOf ''METER-001'' (fst (batchIngestMeterTelemetry [meterTieB, meterTieA] emptyDb))
      = Some \<lparr>mcs_meterId = ''METER-001'', mcs_kwhConsumedAc = 20, mcs_voltage = 231,
              mcs_lastTimestamp = 1000\<rparr>"
    by (simp add: meterStateOf_batch meter_examples) (simp add: meterTieB_def)
  have c: "meterStateOf ''METER-001'' (fst (ingestMeterTelemetry meterTieB emptyDb))
      = Some \<lparr>mcs_meterId = ''METER-001'', mcs_kwhConsumedAc = 20, mcs_voltage = 231,
              mcs_lastTimestamp = 1000\<rparr>"
    by (simp add: meterStateOf_ingest meterTieB_def)
  show ?thesis
    by (simp add: a b c meter_examples)
qed

section \<open>Ingestion: the last timestamp along a stream\<close>

lemma maxTimestamp_append:
  assumes "ts \<noteq> []" and "list_all (\<lambda>t. t \<le> Max (set ts)) prev"
  shows "maxTimestamp (prev @ ts) = maxTimestamp ts"
proof -
  have "Max (set prev \<union> set ts) = Max (set ts)"
  proof (rule Max_eqI)
    show "finite (set prev \<union> set ts)" by simp
    show "y \<le> Max (set ts)" if "y \<in> set prev \<union> set ts" for y
      using that assms by (auto simp: list_all_iff)
    show "Max (set ts) \<in> set prev \<union> set ts"
      using assms(1) Max_in [of "set ts"] by simp
  qed
  then show ?thesis
    using assms(1) by (simp add: maxTimestamp_def)
qed

lemma ordered_stream_invariant:
  fixes lastOf :: "'st \<Rightarrow> int option" and accepted :: "'st \<Rightarrow> int list"
    and step :: "'op \<Rightarrow> 'st \<Rightarrow> 'st" and tsOf :: "'op \<Rightarrow> int list"
  assumes acc: "\<And>op s. accepted (step op s) = accepted s @ tsOf op"
    and last: "\<And>op s. lastOf (step op s)
                 = (if tsOf op = [] then lastOf s else maxTimestamp (tsOf op))"
  shows "lastOf s = maxTimestamp (accepted s) \<Longrightarrow> inTimestampOrder (accepted s) (map tsOf ops)
    \<Longrightarrow> lastOf (fold step ops s) = maxTimestamp (accepted (fold step ops s))"
proof (induction ops arbitrary: s)
  case Nil
  then show ?case by simp
next
  case (Cons op ops)
  have inv: "lastOf (step op s) = maxTimestamp (accepted (step op s))"
  proof (cases "tsOf op = []")
    case True
    then show ?thesis using Cons.prems(1) by (simp add: acc last)
  next
    case False
    then have "list_all (\<lambda>t. t \<le> Max (set (tsOf op))) (accepted s)"
      using Cons.prems(2) by simp
    then show ?thesis
      using False by (simp add: acc last maxTimestamp_append)
  qed
  have ord: "inTimestampOrder (accepted (step op s)) (map tsOf ops)"
    using Cons.prems(2) by (simp add: acc)
  show ?case
    using Cons.IH [OF inv ord] by simp
qed

lemma meterReadingRow_sel:
  "mr_meterId (meterReadingRow i dto) = mt_meterId dto"
  "mr_timestamp (meterReadingRow i dto) = mt_timestamp dto"
  by (simp_all add: meterReadingRow_def)

lemma vehicleReadingRow_sel:
  "vr_vehicleId (vehicleReadingRow i dto) = vt_vehicleId dto"
  "vr_timestamp (vehicleReadingRow i dto) = vt_timestamp dto"
  by (simp_all add: vehicleReadingRow_def)

lemma ledger_rows_meter:
  "map mr_timestamp (filter (\<lambda>r. mr_meterId r = d)
      (map (\<lambda>(i, dto). meterReadingRow i dto) (enumerate n readings)))
    = map mt_timestamp (filter (\<lambda>r. mt_meterId r = d) readings)"
  by (induction readings arbitrary: n) (simp_all add: meterReadingRow_sel)

lemma ledger_rows_vehicle:
  "map vr_timestamp (filter (\<lambda>r. vr_vehicleId r = d)
      (map (\<lambda>(i, dto). vehicleReadingRow i dto) (enumerate n readings)))
    = map vt_timestamp (filter (\<lambda>r. vt_vehicleId r = d) readings)"
  by (induction readings arbitrary: n) (simp_all add: vehicleReadingRow_sel)

lemma acceptedMeterTimestamps_applyOp:
  "acceptedMeterTimestamps d (applyOp op s) = acceptedMeterTimestamps d s @ meterTimestampsIn d op"
  by (cases op)
    (simp_all add: acceptedMeterTimestamps_def meterTimestampsIn_def meterReadingsOf_def
      ingestMeterTelemetry_def ingestVehicleTelemetry_def batchIngestMeterTelemetry_def
      batchIngestVehicleTelemetry_def Let_def meterReadingRow_sel ledger_rows_meter)

lemma acceptedVehicleTimestamps_applyOp:
  "acceptedVehicleTimestamps d (applyOp op s)
     = acceptedVehicleTimestamps d s @ vehicleTimestampsIn d op"
  by (cases op)
    (simp_all add: acceptedVehicleTimestamps_def vehicleTimestampsIn_def vehicleReadingsOf_def
      ingestMeterTelemetry_def ingestVehicleTelemetry_def batchIngestMeterTelemetry_def
      batchIngestVehicleTelemetry_def Let_def vehicleReadingRow_sel ledger_rows_vehicle)

lemma winnerFirstTie_max:
  "map_option ts (winnerFirstTie ts ds) = maxTimestamp (map ts ds)"
proof (cases "winnerFirstTie ts ds")
  case None
  then show ?thesis by (simp add: winnerFirstTie_None maxTimestamp_def)
next
  case (Some w)
  have "ds \<noteq> []" using Some by (auto simp: winnerFirstTie_def)
  then show ?thesis
    using winnerFirstTie_Some [OF Some] by (simp add: Some maxTimestamp_def)
qed

lemma meterLastTimestamp_applyOp:
  "meterLastTimestamp d (applyOp op s) =
     (if meterTimestampsIn d op = [] then meterLastTimestamp d s
      else maxTimestamp (meterTimestampsIn d op))"
proof (cases op)
  case (IngestMeter dto)
  then show ?thesis
    by (simp add: meterLastTimestamp_def meterStateOf_ingest meterTimestampsIn_def
        meterReadingsOf_def maxTimestamp_def)
next
  case (IngestVehicle dto)
  then show ?thesis
    by (simp add: meterLastTimestamp_def meterStateOf_def ingestVehicleTelemetry_def Let_def
        meterTimestampsIn_def meterReadingsOf_def)
next
  case (BatchMeter readings)
  have "meterLastTimestamp d (fst (batchIngestMeterTelemetry readings s)) =
      (case winnerFirstTie mt_timestamp (meterReadingsOf d readings) of
         None \<Rightarrow> meterLastTimestamp d s
       | Some w \<Rightarrow> map_option mt_timestamp (Some w))"
    by (simp add: meterLastTimestamp_def meterStateOf_batch split: option.splits)
  then show ?thesis
    using winnerFirstTie_max [of mt_timestamp "meterReadingsOf d readings"]
    by (cases "winnerFirstTie mt_timestamp (meterReadingsOf d readings)")
      (simp_all add: BatchMeter meterTimestampsIn_def winnerFirstTie_None maxTimestamp_def
        split: if_splits)
next
  case (BatchVehicle readings)
  then show ?thesis
    by (simp add: meterLastTimestamp_def meterStateOf_def batchIngestVehicleTelemetry_def
        Let_def meterTimestampsIn_def meterReadingsOf_def)
qed

lemma vehicleLastTimestamp_applyOp:
  "vehicleLastTimestamp d (applyOp op s) =
     (if vehicleTimestampsIn d op = [] then vehicleLastTimestamp d s
      else maxTimestamp (vehicleTimestampsIn d op))"
proof (cases op)
  case (IngestVehicle dto)
  then show ?thesis
    by (simp add: vehicleLastTimestamp_def vehicleStateOf_ingest vehicleTimestampsIn_def
        vehicleReadingsOf_def maxTimestamp_def)
next
  case (IngestMeter dto)
  then show ?thesis
    by (simp add: vehicleLastTimestamp_def vehicleStateOf_def ingestMeterTelemetry_def Let_def
        vehicleTimestampsIn_def vehicleReadingsOf_def)
next
  case (BatchVehicle readings)
  have "vehicleLastTimestamp d (fst (batchIngestVehicleTelemetry readings s)) =
      (case winnerFirstTie vt_timestamp (vehicleReadingsOf d readings) of
         None \<Rightarrow> vehicleLastTimestamp d s
       | Some w \<Rightarrow> map_option vt_timestamp (Some w))"
    by (simp add: vehicleLastTimestamp_def vehicleStateOf_batch split: option.splits)
  then show ?thesis
    using winnerFirstTie_max [of vt_timestamp "vehicleReadingsOf d readings"]
    by (cases "winnerFirstTie vt_timestamp (vehicleReadingsOf d readings)")
      (simp_all add: BatchVehicle vehicleTimestampsIn_def winnerFirstTie_None maxTimestamp_def
        split: if_splits)
next
  case (BatchMeter readings)
  then show ?thesis
    by (simp add: vehicleLastTimestamp_def vehicleStateOf_def batchIngestMeterTelemetry_def
        Let_def vehicleTimestampsIn_def vehicleReadingsOf_def)
qed

lemma example_timestamps:
  "meterTimestampsIn ''METER-001'' (IngestMeter meterTieA) = [1000]"
  "meterTimestampsIn ''METER-001'' (IngestMeter meterLate) = [2000]"
  "meterTimestampsIn ''METER-001'' (BatchMeter [meterLate, meterTieB]) = [2000, 1000]"
  "meterTimestampsIn ''METER-001'' (IngestVehicle vehicleTieA) = []"
  "meterTimestampsIn ''METER-001'' (BatchVehicle [vehicleTieB, vehicleLate]) = []"
  "vehicleTimestampsIn ''VEH-001'' (IngestMeter meterTieA) = []"
  "vehicleTimestampsIn ''VEH-001'' (BatchMeter [meterLate, meterTieB]) = []"
  "vehicleTimestampsIn ''VEH-001'' (IngestVehicle vehicleTieA) = [1000]"
  "vehicleTimestampsIn ''VEH-001'' (BatchVehicle [vehicleTieB, vehicleLate]) = [1000, 2000]"
  by (simp_all add: meterTimestampsIn_def vehicleTimestampsIn_def meterReadingsOf_def
      vehicleReadingsOf_def meterTieA_def meterTieB_def meterLate_def vehicleTieA_def
      vehicleTieB_def vehicleLate_def)

lemma accepted_empty:
  "acceptedMeterTimestamps d emptyDb = []" "acceptedVehicleTimestamps d emptyDb = []"
  by (simp_all add: acceptedMeterTimestamps_def acceptedVehicleTimestamps_def emptyDb_def)

text \<open>
  \<^bold>\<open>Claim C2\<close> (as amended).  For every device, after an \<open>ingest\<close> or \<open>ingestBatch\<close>
  operation that carries at least one reading for the device, the \<open>lastTimestamp\<close> of
  its current-state row is the maximum observation timestamp among that operation's
  readings for the device, whatever the row held before.  Hence after every sequence of
  operations run from the empty store in which no operation's maximum timestamp for the
  device lies below a timestamp accepted for it earlier, \<open>lastTimestamp\<close> equals the
  maximum observation timestamp over all readings accepted for that device.
\<close>

theorem last_timestamp_on_ordered_stream:
  "(meterTimestampsIn d op \<noteq> [] \<longrightarrow>
      meterLastTimestamp d (applyOp op s) = maxTimestamp (meterTimestampsIn d op))
   \<and> (inTimestampOrder [] (map (meterTimestampsIn d) ops) \<longrightarrow>
      meterLastTimestamp d (runOps ops) = maxTimestamp (acceptedMeterTimestamps d (runOps ops)))
   \<and> (vehicleTimestampsIn vd op \<noteq> [] \<longrightarrow>
      vehicleLastTimestamp vd (applyOp op s) = maxTimestamp (vehicleTimestampsIn vd op))
   \<and> (inTimestampOrder [] (map (vehicleTimestampsIn vd) ops) \<longrightarrow>
      vehicleLastTimestamp vd (runOps ops)
        = maxTimestamp (acceptedVehicleTimestamps vd (runOps ops)))"
proof -
  have m0: "meterLastTimestamp d emptyDb = maxTimestamp (acceptedMeterTimestamps d emptyDb)"
    by (simp add: meterLastTimestamp_def meterStateOf_def acceptedMeterTimestamps_def
        emptyDb_def findUnique_def maxTimestamp_def)
  have a0: "acceptedMeterTimestamps d emptyDb = []"
    by (simp add: acceptedMeterTimestamps_def emptyDb_def)
  have m: "meterLastTimestamp d (runOps ops) = maxTimestamp (acceptedMeterTimestamps d (runOps ops))"
    if "inTimestampOrder [] (map (meterTimestampsIn d) ops)"
    unfolding runOps_def
    by (rule ordered_stream_invariant [where tsOf = "meterTimestampsIn d"])
      (simp_all add: acceptedMeterTimestamps_applyOp meterLastTimestamp_applyOp m0 a0 that)
  have v0: "vehicleLastTimestamp vd emptyDb = maxTimestamp (acceptedVehicleTimestamps vd emptyDb)"
    by (simp add: vehicleLastTimestamp_def vehicleStateOf_def acceptedVehicleTimestamps_def
        emptyDb_def findUnique_def maxTimestamp_def)
  have b0: "acceptedVehicleTimestamps vd emptyDb = []"
    by (simp add: acceptedVehicleTimestamps_def emptyDb_def)
  have v: "vehicleLastTimestamp vd (runOps ops)
        = maxTimestamp (acceptedVehicleTimestamps vd (runOps ops))"
    if "inTimestampOrder [] (map (vehicleTimestampsIn vd) ops)"
    unfolding runOps_def
    by (rule ordered_stream_invariant [where tsOf = "vehicleTimestampsIn vd"])
      (simp_all add: acceptedVehicleTimestamps_applyOp vehicleLastTimestamp_applyOp v0 b0 that)
  from m v show ?thesis
    by (simp add: meterLastTimestamp_applyOp vehicleLastTimestamp_applyOp)
qed

text \<open>A batch carrying timestamps 2000 and 1000 leaves 2000; along the ordered example
  stream the row of each device ends at the maximum accepted timestamp.\<close>

theorem last_timestamp_on_ordered_stream_witness:
  "meterTimestampsIn ''METER-001'' (BatchMeter [meterLate, meterTieB]) = [2000, 1000]
   \<and> meterLastTimestamp ''METER-001'' (applyOp (BatchMeter [meterLate, meterTieB]) emptyDb)
       = Some 2000
   \<and> inTimestampOrder [] (map (meterTimestampsIn ''METER-001'') inOrderOps)
   \<and> meterLastTimestamp ''METER-001'' (runOps inOrderOps) = Some 2000
   \<and> maxTimestamp (acceptedMeterTimestamps ''METER-001'' (runOps inOrderOps)) = Some 2000
   \<and> vehicleTimestampsIn ''VEH-001'' (BatchVehicle [vehicleTieB, vehicleLate]) = [1000, 2000]
   \<and> vehicleLastTimestamp ''VEH-001'' (applyOp (BatchVehicle [vehicleTieB, vehicleLate]) emptyDb)
       = Some 2000
   \<and> inTimestampOrder [] (map (vehicleTimestampsIn ''VEH-001'') inOrderOps)
   \<and> vehicleLastTimestamp ''VEH-001'' (runOps inOrderOps) = Some 2000
   \<and> maxTimestamp (acceptedVehicleTimestamps ''VEH-001'' (runOps inOrderOps)) = Some 2000"
proof -
  note inst = last_timestamp_on_ordered_stream [where d = "''METER-001''"
      and op = "BatchMeter [meterLate, meterTieB]" and s = emptyDb and ops = inOrderOps
      and vd = "''VEH-001''"]
  note instv = last_timestamp_on_ordered_stream [where vd = "''VEH-001''"
      and op = "BatchVehicle [vehicleTieB, vehicleLate]" and s = emptyDb and ops = inOrderOps
      and d = "''METER-001''"]
  have ordM: "inTimestampOrder [] (map (meterTimestampsIn ''METER-001'') inOrderOps)"
    by (simp add: inOrderOps_def example_timestamps)
  have ordV: "inTimestampOrder [] (map (vehicleTimestampsIn ''VEH-001'') inOrderOps)"
    by (simp add: inOrderOps_def example_timestamps)
  have accM: "maxTimestamp (acceptedMeterTimestamps ''METER-001'' (runOps inOrderOps)) = Some 2000"
    by (simp add: runOps_def inOrderOps_def acceptedMeterTimestamps_applyOp
        example_timestamps accepted_empty maxTimestamp_def del: applyOp.simps)
  have accV: "maxTimestamp (acceptedVehicleTimestamps ''VEH-001'' (runOps inOrderOps)) = Some 2000"
    by (simp add: runOps_def inOrderOps_def acceptedVehicleTimestamps_applyOp
        example_timestamps accepted_empty maxTimestamp_def del: applyOp.simps)
  have mx: "maxTimestamp [2000, 1000] = Some 2000" "maxTimestamp [1000, 2000] = Some 2000"
    by (simp_all add: maxTimestamp_def)
  have opM: "meterLastTimestamp ''METER-001''
      (applyOp (BatchMeter [meterLate, meterTieB]) emptyDb) = Some 2000"
    using inst by (simp add: example_timestamps mx del: applyOp.simps)
  have opV: "vehicleLastTimestamp ''VEH-001''
      (applyOp (BatchVehicle [vehicleTieB, vehicleLate]) emptyDb) = Some 2000"
    using instv by (simp add: example_timestamps mx del: applyOp.simps)
  have runM: "meterLastTimestamp ''METER-001'' (runOps inOrderOps) = Some 2000"
    using inst ordM accM by simp
  have runV: "vehicleLastTimestamp ''VEH-001'' (runOps inOrderOps) = Some 2000"
    using inst ordV accV by simp
  from example_timestamps(3) opM ordM runM accM example_timestamps(9) opV ordV runV accV
  show ?thesis by blast
qed

text \<open>The invariant as first stated, for every sequence of operations, fails when a
  single reading arrives after a later one: the row is overwritten with the older
  timestamp 1000 while a reading with timestamp 2000 has been accepted.\<close>

theorem last_timestamp_regresses_counterexample:
  "meterLastTimestamp ''METER-001'' (runOps outOfOrderOps) = Some 1000
   \<and> maxTimestamp (acceptedMeterTimestamps ''METER-001'' (runOps outOfOrderOps)) = Some 2000
   \<and> meterLastTimestamp ''METER-001'' (runOps outOfOrderOps)
       \<noteq> maxTimestamp (acceptedMeterTimestamps ''METER-001'' (runOps outOfOrderOps))"
proof -
  have "meterLastTimestamp ''METER-001'' (runOps outOfOrderOps) = Some 1000"
    by (simp add: runOps_def outOfOrderOps_def meterLastTimestamp_applyOp example_timestamps
        maxTimestamp_def del: applyOp.simps)
  moreover have "maxTimestamp (acceptedMeterTimestamps ''METER-001'' (runOps outOfOrderOps))
      = Some 2000"
    by (simp add: runOps_def outOfOrderOps_def acceptedMeterTimestamps_applyOp
        example_timestamps accepted_empty maxTimestamp_def del: applyOp.simps)
  ultimately show ?thesis by simp
qed

end
